theory Spec2Isabelle
  imports Complex_Main "HOL-Library.Multiset"
begin

section \<open>Data model (prisma schema)\<close>

text \<open>
  The tables are those of the Prisma schema that the invoice, void and return handlers
  touch. \<open>Int\<close> columns are unbounded integers and \<open>Decimal\<close> columns (and the
  JavaScript numbers that \<open>parseFloat\<close> and \<open>Number\<close> produce from them) are exact
  rationals. Primary keys are strings. Timestamps and the free-text columns that no
  handler reads back (names, notes, descriptions, details, payment reference, reason)
  are left out of the rows.
\<close>

type_synonym ident = string

record product =
  stock :: int

record customer =
  loyaltyPoints :: int
  totalPurchases :: rat

record invoice_item =
  ii_productId :: ident
  ii_quantity :: int
  ii_unitPrice :: rat
  ii_taxRate :: rat
  ii_taxAmount :: rat
  ii_discount :: rat
  ii_total :: rat

record invoice =
  i_id :: ident
  i_invoiceNumber :: string
  i_customerId :: "ident option"
  i_userId :: ident
  i_subtotal :: rat
  i_taxAmount :: rat
  i_discountAmount :: rat
  i_totalAmount :: rat
  i_status :: string
  i_paymentMethod :: string
  i_items :: "invoice_item list"

record return_item =
  ri_productId :: ident
  ri_quantity :: int
  ri_unitPrice :: rat
  ri_total :: rat

record return_order =
  ro_invoiceId :: ident
  ro_totalAmount :: rat
  ro_status :: string
  ro_items :: "return_item list"

record stock_entry =
  sh_productId :: ident
  sh_quantity :: int
  sh_type :: string
  sh_invoiceId :: "ident option"

record loyalty_entry =
  lh_customerId :: ident
  lh_points :: int

record activity =
  al_userId :: ident
  al_action :: string

record db =
  users :: "ident set"
  products :: "ident \<rightharpoonup> product"
  customers :: "ident \<rightharpoonup> customer"
  invoices :: "invoice list"
  returnOrders :: "return_order list"
  stockHistory :: "stock_entry list"
  loyaltyHistory :: "loyalty_entry list"
  activityLog :: "activity list"

section \<open>Requests, sessions, responses\<close>

text \<open>
  A request body is the parsed JSON. Quantities are JSON integers and amounts JSON
  numbers, so \<open>parseInt\<close> and \<open>parseFloat\<close> return them as they are; a property that
  may be absent is an option.
\<close>

record item_data =
  productId :: ident
  quantity :: int
  unitPrice :: rat
  taxRate :: "rat option"
  item_taxAmount :: "rat option"
  discount :: "rat option"
  item_total :: rat

record invoice_data =
  customerId :: "ident option"
  subtotal :: rat
  taxAmount :: rat
  discountAmount :: "rat option"
  totalAmount :: rat
  status :: "string option"
  paymentMethod :: string
  items :: "item_data list"

record return_item_data =
  r_productId :: ident
  r_quantity :: int
  r_unitPrice :: rat
  r_total :: rat

record return_data =
  r_invoiceId :: "ident option"
  r_totalAmount :: rat
  r_status :: "string option"
  r_items :: "return_item_data list"

record session =
  s_userId :: ident
  s_role :: string

record response =
  code :: nat
  error :: "string option"

definition json_error :: "string \<Rightarrow> nat \<Rightarrow> response" where
  "json_error msg st = \<lparr>code = st, error = Some msg\<rparr>"

definition json_ok :: "nat \<Rightarrow> response" where
  "json_ok st = \<lparr>code = st, error = None\<rparr>"

text \<open>JavaScript truthiness of an optional string and of an optional number.\<close>

definition truthy_str :: "string option \<Rightarrow> bool" where
  "truthy_str s = (case s of None \<Rightarrow> False | Some v \<Rightarrow> v \<noteq> [])"

definition str_or :: "string option \<Rightarrow> string \<Rightarrow> string" where
  "str_or s d = (case s of None \<Rightarrow> d | Some v \<Rightarrow> if v \<noteq> [] then v else d)"

definition str_or_null :: "string option \<Rightarrow> string option" where
  "str_or_null s = (if truthy_str s then s else None)"

definition num_or_zero :: "rat option \<Rightarrow> rat" where
  "num_or_zero x = (case x of None \<Rightarrow> 0 | Some v \<Rightarrow> if v \<noteq> 0 then v else 0)"

text \<open>
  Modelled from the spec: \<open>lib/auth\<close> (\<open>isAdmin\<close>, \<open>isManager\<close>, \<open>isCashier\<close>) is
  not among the sources; the spec gives the three-tier order ADMIN > MANAGER > CASHIER.
\<close>

definition isAdmin :: "string \<Rightarrow> bool" where
  "isAdmin r = (r = ''ADMIN'')"

definition isManager :: "string \<Rightarrow> bool" where
  "isManager r = (r = ''ADMIN'' \<or> r = ''MANAGER'')"

definition isCashier :: "string \<Rightarrow> bool" where
  "isCashier r = (r = ''ADMIN'' \<or> r = ''MANAGER'' \<or> r = ''CASHIER'')"

section \<open>The store: Prisma client calls\<close>

text \<open>
  The outcome of a statement, or of a run of statements, is the exception it threw, if
  any, and the store as it left it: a run that throws at its third write leaves the two
  writes before it in the store. \<open>P2002\<close> is a unique-constraint violation,
  \<open>P2003\<close> a foreign-key violation, \<open>P2025\<close> an update of a row that does not exist;
  \<open>Error\<close> is a \<open>throw new Error(...)\<close> of the handler itself. A single client call
  that throws writes nothing.
\<close>

datatype exn = Error string | P2002 | P2003 | P2025

type_synonym outcome = "exn option \<times> db"

text \<open>Sequencing of awaited statements: what follows a throw is skipped.\<close>

definition thenE :: "outcome \<Rightarrow> (db \<Rightarrow> outcome) \<Rightarrow> outcome" where
  "thenE m f = (case m of (Some e, d1) \<Rightarrow> (Some e, d1) | (None, d1) \<Rightarrow> f d1)"

text \<open>
  \<open>prisma.$transaction\<close>: the body runs on the store; when it throws, the store goes
  back to what it was when the transaction began and the exception is thrown on; when it
  returns, the store is as the body left it.
\<close>

definition transaction :: "(db \<Rightarrow> outcome) \<Rightarrow> db \<Rightarrow> outcome" where
  "transaction body d =
     (case body d of (Some e, d1) \<Rightarrow> (Some e, d) | (None, d1) \<Rightarrow> (None, d1))"

definition invoice_findUnique :: "db \<Rightarrow> ident \<Rightarrow> invoice option" where
  "invoice_findUnique d iid = find (\<lambda>i. i_id i = iid) (invoices d)"

definition invoice_create :: "invoice \<Rightarrow> db \<Rightarrow> outcome" where
  "invoice_create ivc d =
     (if i_id ivc \<in> set (map i_id (invoices d))
         \<or> i_invoiceNumber ivc \<in> set (map i_invoiceNumber (invoices d)) then (Some P2002, d)
      else if (case i_customerId ivc of None \<Rightarrow> False | Some c \<Rightarrow> customers d c = None)
         \<or> i_userId ivc \<notin> users d
         \<or> (\<exists>it \<in> set (i_items ivc). products d (ii_productId it) = None) then (Some P2003, d)
      else (None, d\<lparr>invoices := invoices d @ [ivc]\<rparr>))"

definition invoice_update_status :: "ident \<Rightarrow> string \<Rightarrow> db \<Rightarrow> outcome" where
  "invoice_update_status iid st d =
     (if invoice_findUnique d iid = None then (Some P2025, d)
      else (None, d\<lparr>invoices :=
             map (\<lambda>i. if i_id i = iid then i\<lparr>i_status := st\<rparr> else i) (invoices d)\<rparr>))"

definition product_update_stock :: "ident \<Rightarrow> int \<Rightarrow> db \<Rightarrow> outcome" where
  "product_update_stock pid delta d =
     (case products d pid of
        None \<Rightarrow> (Some P2025, d)
      | Some p \<Rightarrow> (None, d\<lparr>products := (products d)(pid \<mapsto> p\<lparr>stock := stock p + delta\<rparr>)\<rparr>))"

definition stockHistory_create :: "stock_entry \<Rightarrow> db \<Rightarrow> outcome" where
  "stockHistory_create e d =
     (if products d (sh_productId e) = None then (Some P2003, d)
      else (None, d\<lparr>stockHistory := stockHistory d @ [e]\<rparr>))"

definition customer_update :: "ident \<Rightarrow> rat \<Rightarrow> int \<Rightarrow> db \<Rightarrow> outcome" where
  "customer_update cid dPurchases dPoints d =
     (case customers d cid of
        None \<Rightarrow> (Some P2025, d)
      | Some c \<Rightarrow> (None, d\<lparr>customers := (customers d)(cid \<mapsto>
            c\<lparr>totalPurchases := totalPurchases c + dPurchases,
              loyaltyPoints := loyaltyPoints c + dPoints\<rparr>)\<rparr>))"

definition loyaltyHistory_create :: "loyalty_entry \<Rightarrow> db \<Rightarrow> outcome" where
  "loyaltyHistory_create e d =
     (if customers d (lh_customerId e) = None then (Some P2003, d)
      else (None, d\<lparr>loyaltyHistory := loyaltyHistory d @ [e]\<rparr>))"

definition activityLog_create :: "activity \<Rightarrow> db \<Rightarrow> outcome" where
  "activityLog_create a d =
     (if al_userId a \<notin> users d then (Some P2003, d)
      else (None, d\<lparr>activityLog := activityLog d @ [a]\<rparr>))"

definition returnOrder_create :: "return_order \<Rightarrow> db \<Rightarrow> outcome" where
  "returnOrder_create ro d =
     (if invoice_findUnique d (ro_invoiceId ro) = None then (Some P2003, d)
      else (None, d\<lparr>returnOrders := returnOrders d @ [ro]\<rparr>))"

definition returnOrder_findFirst :: "db \<Rightarrow> ident \<Rightarrow> return_order option" where
  "returnOrder_findFirst d iid = find (\<lambda>ro. ro_invoiceId ro = iid) (returnOrders d)"

section \<open>POST /invoices\<close>

definition item_row :: "item_data \<Rightarrow> invoice_item" where
  "item_row item =
     \<lparr>ii_productId = productId item, ii_quantity = quantity item,
      ii_unitPrice = unitPrice item, ii_taxRate = num_or_zero (taxRate item),
      ii_taxAmount = num_or_zero (item_taxAmount item),
      ii_discount = num_or_zero (discount item), ii_total = item_total item\<rparr>"

definition new_invoice :: "session \<Rightarrow> string \<Rightarrow> ident \<Rightarrow> invoice_data \<Rightarrow> invoice" where
  "new_invoice s invoiceNumber newId data =
     \<lparr>i_id = newId, i_invoiceNumber = invoiceNumber,
      i_customerId = str_or_null (customerId data), i_userId = s_userId s,
      i_subtotal = subtotal data, i_taxAmount = taxAmount data,
      i_discountAmount = num_or_zero (discountAmount data),
      i_totalAmount = totalAmount data, i_status = str_or (status data) ''PAID'',
      i_paymentMethod = paymentMethod data, i_items = map item_row (items data)\<rparr>"

text \<open>Step 2 of the transaction: the loop over \<open>data.items\<close>.\<close>

fun sell_items :: "ident \<Rightarrow> item_data list \<Rightarrow> db \<Rightarrow> outcome" where
  "sell_items iid [] d = (None, d)"
| "sell_items iid (item # rest) d =
     (case products d (productId item) of
        None \<Rightarrow> (Some (Error (''Product with ID '' @ productId item @ '' not found'')), d)
      | Some product \<Rightarrow>
          thenE (product_update_stock (productId item) (- quantity item) d) (\<lambda>d1.
          thenE (stockHistory_create
                   \<lparr>sh_productId = productId item, sh_quantity = quantity item,
                    sh_type = ''sale'', sh_invoiceId = Some iid\<rparr> d1) (\<lambda>d2.
          sell_items iid rest d2)))"

text \<open>Step 3: the customer's running totals.\<close>

definition credit_customer :: "invoice_data \<Rightarrow> db \<Rightarrow> outcome" where
  "credit_customer data d =
     (if truthy_str (customerId data) then
        (case customers d (the (customerId data)) of
           None \<Rightarrow> (None, d)
         | Some customer \<Rightarrow>
             (let pointsEarned = \<lfloor>totalAmount data / 10\<rfloor> in
              thenE (customer_update (the (customerId data)) (totalAmount data) pointsEarned d)
                (\<lambda>d1.
              if pointsEarned > 0 then
                loyaltyHistory_create
                  \<lparr>lh_customerId = the (customerId data), lh_points = pointsEarned\<rparr> d1
              else (None, d1))))
      else (None, d))"

definition create_invoice_tx ::
  "session \<Rightarrow> string \<Rightarrow> ident \<Rightarrow> invoice_data \<Rightarrow> db \<Rightarrow> outcome" where
  "create_invoice_tx s invoiceNumber newId data d =
     thenE (invoice_create (new_invoice s invoiceNumber newId data) d) (\<lambda>d1.
     thenE (sell_items newId (items data) d1) (\<lambda>d2.
     thenE (credit_customer data d2) (\<lambda>d3.
     activityLog_create \<lparr>al_userId = s_userId s, al_action = ''CREATE_INVOICE''\<rparr> d3)))"

text \<open>
  The handler. \<open>invoiceNumber\<close> (date and random suffix) and \<open>newId\<close> (the uuid of
  the new row) come from the environment.
\<close>

definition POST_invoices ::
  "session option \<Rightarrow> string \<Rightarrow> ident \<Rightarrow> invoice_data \<Rightarrow> db \<Rightarrow> response \<times> db" where
  "POST_invoices sess invoiceNumber newId data d =
     (case sess of
        None \<Rightarrow> (json_error ''Not authorized'' 403, d)
      | Some s \<Rightarrow>
          if \<not> isCashier (s_role s) then (json_error ''Not authorized'' 403, d)
          else if items data = [] then
            (json_error ''Invoice must have at least one item'' 400, d)
          else
            (case transaction (create_invoice_tx s invoiceNumber newId data) d of
               (Some e, d') \<Rightarrow> (json_error ''Internal Server Error'' 500, d')
             | (None, d') \<Rightarrow> (json_ok 201, d')))"

section \<open>PUT /invoices/{id}\<close>

text \<open>
  The update handler writes twice through the plain client, outside any transaction:
  the store after a throw is the store as the first write left it. A field that the
  body does not give is left as it is.
\<close>

record invoice_patch =
  p_status :: "string option"
  p_paymentMethod :: "string option"

definition invoice_update_fields :: "ident \<Rightarrow> invoice_patch \<Rightarrow> db \<Rightarrow> outcome" where
  "invoice_update_fields iid data d =
     (if invoice_findUnique d iid = None then (Some P2025, d)
      else (None, d\<lparr>invoices :=
             map (\<lambda>i. if i_id i = iid
                       then i\<lparr>i_status := (case p_status data of None \<Rightarrow> i_status i | Some v \<Rightarrow> v),
                              i_paymentMethod := (case p_paymentMethod data of
                                                    None \<Rightarrow> i_paymentMethod i | Some v \<Rightarrow> v)\<rparr>
                       else i) (invoices d)\<rparr>))"

definition PUT_invoice :: "session option \<Rightarrow> ident \<Rightarrow> invoice_patch \<Rightarrow> db \<Rightarrow> response \<times> db" where
  "PUT_invoice sess invoiceId data d =
     (case sess of
        None \<Rightarrow> (json_error ''Not authorized'' 403, d)
      | Some s \<Rightarrow>
          if \<not> isAdmin (s_role s) then (json_error ''Not authorized'' 403, d)
          else
            (case invoice_findUnique d invoiceId of
               None \<Rightarrow> (json_error ''Invoice not found'' 404, d)
             | Some existingInvoice \<Rightarrow>
                 (case thenE (invoice_update_fields invoiceId data d) (\<lambda>d1.
                         activityLog_create
                           \<lparr>al_userId = s_userId s, al_action = ''UPDATE_INVOICE''\<rparr> d1) of
                    (Some e, d') \<Rightarrow> (json_error ''Internal Server Error'' 500, d')
                  | (None, d') \<Rightarrow> (json_ok 200, d'))))"

section \<open>DELETE /invoices/{id}: voiding an invoice\<close>

text \<open>
  The stock-restoring loop of the void and of the return: for each line, increment the
  product's stock and append a stock-history entry of the given type. The two loops of
  the source differ in the type string and in the rows they walk.
\<close>

fun restock :: "string \<Rightarrow> ident \<Rightarrow> (ident \<times> int) list \<Rightarrow> db \<Rightarrow> outcome" where
  "restock ty iid [] d = (None, d)"
| "restock ty iid ((pid, qty) # rest) d =
     thenE (product_update_stock pid qty d) (\<lambda>d1.
     thenE (stockHistory_create
              \<lparr>sh_productId = pid, sh_quantity = qty, sh_type = ty, sh_invoiceId = Some iid\<rparr> d1)
       (\<lambda>d2.
     restock ty iid rest d2))"

text \<open>Reversal of points and purchases, shared in shape by the void and the return.\<close>

definition debit_customer :: "ident option \<Rightarrow> rat \<Rightarrow> db \<Rightarrow> outcome" where
  "debit_customer cid amount d =
     (if truthy_str cid then
        (let points = \<lfloor>amount / 10\<rfloor> in
         if points > 0 then
           thenE (customer_update (the cid) (- amount) (- points) d) (\<lambda>d1.
           loyaltyHistory_create \<lparr>lh_customerId = the cid, lh_points = - points\<rparr> d1)
         else (None, d))
      else (None, d))"

definition void_invoice_tx :: "session \<Rightarrow> invoice \<Rightarrow> ident \<Rightarrow> db \<Rightarrow> outcome" where
  "void_invoice_tx s existingInvoice invoiceId d =
     thenE (restock ''adjustment'' invoiceId
              (map (\<lambda>item. (ii_productId item, ii_quantity item)) (i_items existingInvoice)) d)
       (\<lambda>d1.
     thenE (invoice_update_status invoiceId ''VOIDED'' d1) (\<lambda>d2.
     thenE (debit_customer (i_customerId existingInvoice) (i_totalAmount existingInvoice) d2)
       (\<lambda>d3.
     activityLog_create \<lparr>al_userId = s_userId s, al_action = ''VOID_INVOICE''\<rparr> d3)))"

definition DELETE_invoice :: "session option \<Rightarrow> ident \<Rightarrow> db \<Rightarrow> response \<times> db" where
  "DELETE_invoice sess invoiceId d =
     (case sess of
        None \<Rightarrow> (json_error ''Not authorized'' 403, d)
      | Some s \<Rightarrow>
          if \<not> isAdmin (s_role s) then (json_error ''Not authorized'' 403, d)
          else
            (case invoice_findUnique d invoiceId of
               None \<Rightarrow> (json_error ''Invoice not found'' 404, d)
             | Some existingInvoice \<Rightarrow>
                 if i_status existingInvoice = ''VOIDED'' then
                   (json_error ''Invoice is already voided'' 400, d)
                 else if returnOrder_findFirst d invoiceId \<noteq> None then
                   (json_error ''Cannot void invoice with returns'' 400, d)
                 else
                   (case transaction (void_invoice_tx s existingInvoice invoiceId) d of
                      (Some e, d') \<Rightarrow> (json_error ''Internal Server Error'' 500, d')
                    | (None, d') \<Rightarrow> (json_ok 200, d'))))"

section \<open>POST /returns\<close>

text \<open>The validation loop; \<open>Some\<close> is the response of the first line that fails.\<close>

fun check_return_items :: "invoice \<Rightarrow> return_item_data list \<Rightarrow> response option" where
  "check_return_items invoice [] = None"
| "check_return_items invoice (item # rest) =
     (case find (\<lambda>i. ii_productId i = r_productId item) (i_items invoice) of
        None \<Rightarrow>
          Some (json_error (''Product ID '' @ r_productId item @ '' not found in the invoice'') 400)
      | Some invoiceItem \<Rightarrow>
          if r_quantity item > ii_quantity invoiceItem then
            Some (json_error (''Cannot return more than purchased quantity for product ''
                                @ r_productId item) 400)
          else check_return_items invoice rest)"

definition allItemsReturned :: "invoice \<Rightarrow> return_data \<Rightarrow> bool" where
  "allItemsReturned invoice data =
     list_all (\<lambda>invoiceItem.
        case find (\<lambda>item. r_productId item = ii_productId invoiceItem) (r_items data) of
          None \<Rightarrow> False
        | Some returnedItem \<Rightarrow> r_quantity returnedItem \<ge> ii_quantity invoiceItem)
       (i_items invoice)"

definition new_return :: "return_data \<Rightarrow> return_order" where
  "new_return data =
     \<lparr>ro_invoiceId = the (r_invoiceId data), ro_totalAmount = r_totalAmount data,
      ro_status = str_or (r_status data) ''COMPLETED'',
      ro_items = map (\<lambda>item. \<lparr>ri_productId = r_productId item, ri_quantity = r_quantity item,
                              ri_unitPrice = r_unitPrice item, ri_total = r_total item\<rparr>)
                   (r_items data)\<rparr>"

definition complete_return :: "invoice \<Rightarrow> return_data \<Rightarrow> db \<Rightarrow> outcome" where
  "complete_return invoice data d =
     thenE (restock ''return'' (the (r_invoiceId data))
              (map (\<lambda>item. (r_productId item, r_quantity item)) (r_items data)) d) (\<lambda>d1.
     thenE (if allItemsReturned invoice data then
              invoice_update_status (the (r_invoiceId data)) ''REFUNDED'' d1
            else (None, d1)) (\<lambda>d2.
     debit_customer (i_customerId invoice) (r_totalAmount data) d2))"

definition create_return_tx :: "session \<Rightarrow> invoice \<Rightarrow> return_data \<Rightarrow> db \<Rightarrow> outcome" where
  "create_return_tx s invoice data d =
     (let returnOrder = new_return data in
      thenE (returnOrder_create returnOrder d) (\<lambda>d1.
      thenE (if ro_status returnOrder = ''COMPLETED'' then complete_return invoice data d1
             else (None, d1)) (\<lambda>d2.
      activityLog_create \<lparr>al_userId = s_userId s, al_action = ''CREATE_RETURN''\<rparr> d2)))"

definition POST_returns :: "session option \<Rightarrow> return_data \<Rightarrow> db \<Rightarrow> response \<times> db" where
  "POST_returns sess data d =
     (case sess of
        None \<Rightarrow> (json_error ''Not authorized'' 403, d)
      | Some s \<Rightarrow>
          if \<not> isManager (s_role s) then (json_error ''Not authorized'' 403, d)
          else if \<not> truthy_str (r_invoiceId data) then
            (json_error ''Invoice ID is required'' 400, d)
          else if r_items data = [] then
            (json_error ''Return must have at least one item'' 400, d)
          else
            (case invoice_findUnique d (the (r_invoiceId data)) of
               None \<Rightarrow> (json_error ''Invoice not found'' 404, d)
             | Some invoice \<Rightarrow>
                 (case check_return_items invoice (r_items data) of
                    Some resp \<Rightarrow> (resp, d)
                  | None \<Rightarrow>
                      (case transaction (create_return_tx s invoice data) d of
                         (Some e, d') \<Rightarrow> (json_error ''Internal Server Error'' 500, d')
                       | (None, d') \<Rightarrow> (json_ok 201, d')))))"

section \<open>Sales reports\<close>

text \<open>
  \<open>getSalesByCategory\<close> and \<open>getSalesByPaymentMethod\<close>, from the rows their
  queries fetch (invoice items, respectively invoices, of the window that are not
  VOIDED). The grouping object is a plain JavaScript object, here an association list
  of its own properties in the order of their creation.

  \<^item> The test \<open>!categoryMap[key]\<close> reads the property through the prototype chain:
    for a key that names a member of \<open>Object.prototype\<close> it finds that member, which
    is truthy, so no group is created, and the following \<open>+=\<close> writes to that
    member and not to the grouping object. An own property is a group record, which is
    truthy too.
  \<^item> \<open>Object.entries\<close> lists the keys that are array indices (canonical decimal
    numerals up to \<open>2^32 - 2\<close>) first, in ascending numeric order, then the other
    keys in the order of their creation.
  \<^item> \<open>sort\<close> with the comparator \<open>b.total - a.total\<close> is a stable sort by
    descending total.

  JavaScript numbers are exact rationals here.
\<close>

definition prototype_keys :: "string list" where
  "prototype_keys =
     [''constructor'', ''__proto__'', ''__defineGetter__'', ''__defineSetter__'',
      ''__lookupGetter__'', ''__lookupSetter__'', ''hasOwnProperty'', ''isPrototypeOf'',
      ''propertyIsEnumerable'', ''toLocaleString'', ''toString'', ''valueOf'']"

definition has_member :: "(string \<times> 'v) list \<Rightarrow> string \<Rightarrow> bool" where
  "has_member obj key \<longleftrightarrow> map_of obj key \<noteq> None \<or> key \<in> set prototype_keys"

definition bump :: "string \<Rightarrow> 'v \<Rightarrow> ('v \<Rightarrow> 'v) \<Rightarrow> (string \<times> 'v) list \<Rightarrow> (string \<times> 'v) list" where
  "bump key init upd obj =
     (let obj1 = (if \<not> has_member obj key then obj @ [(key, init)] else obj)
      in map (\<lambda>(k, v). if k = key then (k, upd v) else (k, v)) obj1)"

definition digit_of :: "char \<Rightarrow> nat option" where
  "digit_of c = map_of (zip ''0123456789'' [0, 1, 2, 3, 4, 5, 6, 7, 8, 9]) c"

definition array_index :: "string \<Rightarrow> nat option" where
  "array_index s =
     (if s = [] \<or> (\<exists>c \<in> set s. digit_of c = None) \<or> (length s > 1 \<and> hd s = CHR ''0'')
      then None
      else (let n = foldl (\<lambda>acc c. 10 * acc + the (digit_of c)) 0 s
            in if n \<le> 4294967294 then Some n else None))"

definition object_entries :: "(string \<times> 'v) list \<Rightarrow> (string \<times> 'v) list" where
  "object_entries obj =
     sort_key (\<lambda>e. the (array_index (fst e))) (filter (\<lambda>e. array_index (fst e) \<noteq> None) obj)
     @ filter (\<lambda>e. array_index (fst e) = None) obj"

record category_sale =
  cs_total :: rat
  cs_categoryId :: "string option"
  cs_categoryName :: "string option"

record category_row =
  cr_id :: string
  cr_name :: string
  cr_total :: rat
  cr_percentage :: rat

record category_report =
  cat_data :: "category_row list"
  totalCategories :: nat
  cat_totalSales :: rat

record payment_sale =
  ps_paymentMethod :: string
  ps_totalAmount :: rat

record payment_row =
  pr_method :: string
  pr_total :: rat
  pr_count :: nat
  pr_average :: rat
  pr_percentage :: rat

record payment_report =
  pay_data :: "payment_row list"
  totalMethods :: nat
  pay_totalSales :: rat
  totalTransactions :: nat

definition add_category_sale ::
  "(string \<times> string \<times> rat) list \<Rightarrow> category_sale \<Rightarrow> (string \<times> string \<times> rat) list" where
  "add_category_sale categoryMap item =
     (let categoryId = str_or (cs_categoryId item) ''uncategorized'';
          categoryName = str_or (cs_categoryName item) ''Uncategorized''
      in bump categoryId (categoryName, 0) (\<lambda>(name, tot). (name, tot + cs_total item))
           categoryMap)"

definition category_result :: "category_sale list \<Rightarrow> (string \<times> string \<times> rat) list" where
  "category_result categorySales =
     (let categoryMap =
            foldl add_category_sale [(''uncategorized'', ''Uncategorized'', 0)] categorySales
      in sort_key (\<lambda>(k, name, tot). - tot) (object_entries categoryMap))"

definition getSalesByCategory :: "category_sale list \<Rightarrow> category_report" where
  "getSalesByCategory categorySales =
     (let result = category_result categorySales;
          totalSales = foldl (\<lambda>acc item. acc + snd (snd item)) 0 result
      in \<lparr>cat_data =
            map (\<lambda>(k, name, tot).
                   \<lparr>cr_id = k, cr_name = name, cr_total = tot,
                    cr_percentage = (if totalSales > 0 then tot / totalSales * 100 else 0)\<rparr>)
              result,
          totalCategories = length result,
          cat_totalSales = totalSales\<rparr>)"

definition add_payment_sale ::
  "(string \<times> rat \<times> nat) list \<Rightarrow> payment_sale \<Rightarrow> (string \<times> rat \<times> nat) list" where
  "add_payment_sale paymentMethodMap invoice =
     bump (ps_paymentMethod invoice) (0, 0)
       (\<lambda>(tot, cnt). (tot + ps_totalAmount invoice, cnt + 1)) paymentMethodMap"

definition payment_result :: "payment_sale list \<Rightarrow> (string \<times> rat \<times> nat) list" where
  "payment_result paymentMethodSales =
     (let paymentMethodMap = foldl add_payment_sale [] paymentMethodSales
      in sort_key (\<lambda>(k, tot, cnt). - tot) (object_entries paymentMethodMap))"

definition getSalesByPaymentMethod :: "payment_sale list \<Rightarrow> payment_report" where
  "getSalesByPaymentMethod paymentMethodSales =
     (let result = payment_result paymentMethodSales;
          totalSales = foldl (\<lambda>acc item. acc + fst (snd item)) 0 result
      in \<lparr>pay_data =
            map (\<lambda>(k, tot, cnt).
                   \<lparr>pr_method = k, pr_total = tot, pr_count = cnt,
                    pr_average = tot / of_nat cnt,
                    pr_percentage = (if totalSales > 0 then tot / totalSales * 100 else 0)\<rparr>)
              result,
          totalMethods = length result,
          pay_totalSales = totalSales,
          totalTransactions = foldl (\<lambda>acc item. acc + snd (snd item)) 0 result\<rparr>)"

definition category_key :: "category_sale \<Rightarrow> string" where
  "category_key item = str_or (cs_categoryId item) ''uncategorized''"

definition counted :: "string \<Rightarrow> bool" where
  "counted key \<longleftrightarrow> key \<notin> set prototype_keys"

section \<open>Effects of the workflows, stated on the tables\<close>

text \<open>
  What the loops and the customer updates amount to, as functions on the tables; the
  lemmas below prove that the handlers compute them.
\<close>

definition stock_after :: "(ident \<times> int) list \<Rightarrow> (ident \<rightharpoonup> product) \<Rightarrow> (ident \<rightharpoonup> product)" where
  "stock_after deltas ps =
     (\<lambda>pid. map_option
        (\<lambda>p. p\<lparr>stock := stock p + sum_list (map snd (filter (\<lambda>x. fst x = pid) deltas))\<rparr>)
        (ps pid))"

definition history_entry :: "string \<Rightarrow> ident \<Rightarrow> ident \<times> int \<Rightarrow> stock_entry" where
  "history_entry ty iid x =
     \<lparr>sh_productId = fst x, sh_quantity = snd x, sh_type = ty, sh_invoiceId = Some iid\<rparr>"

definition sale_lines :: "item_data list \<Rightarrow> (ident \<times> int) list" where
  "sale_lines its = map (\<lambda>item. (productId item, - quantity item)) its"

definition sale_entry :: "ident \<Rightarrow> item_data \<Rightarrow> stock_entry" where
  "sale_entry iid item =
     \<lparr>sh_productId = productId item, sh_quantity = quantity item,
      sh_type = ''sale'', sh_invoiceId = Some iid\<rparr>"

definition void_lines :: "invoice \<Rightarrow> (ident \<times> int) list" where
  "void_lines ivc = map (\<lambda>item. (ii_productId item, ii_quantity item)) (i_items ivc)"

definition return_lines :: "return_data \<Rightarrow> (ident \<times> int) list" where
  "return_lines data = map (\<lambda>item. (r_productId item, r_quantity item)) (r_items data)"

definition credited :: "invoice_data \<Rightarrow> (ident \<rightharpoonup> customer) \<Rightarrow> (ident \<rightharpoonup> customer)" where
  "credited data cs =
     (if truthy_str (customerId data) then
        (case cs (the (customerId data)) of
           None \<Rightarrow> cs
         | Some c \<Rightarrow> cs(the (customerId data) \<mapsto>
             c\<lparr>totalPurchases := totalPurchases c + totalAmount data,
               loyaltyPoints := loyaltyPoints c + \<lfloor>totalAmount data / 10\<rfloor>\<rparr>))
      else cs)"

definition credit_entries :: "invoice_data \<Rightarrow> (ident \<rightharpoonup> customer) \<Rightarrow> loyalty_entry list" where
  "credit_entries data cs =
     (if truthy_str (customerId data) \<and> cs (the (customerId data)) \<noteq> None
         \<and> \<lfloor>totalAmount data / 10\<rfloor> > 0
      then [\<lparr>lh_customerId = the (customerId data), lh_points = \<lfloor>totalAmount data / 10\<rfloor>\<rparr>]
      else [])"

definition debited :: "ident option \<Rightarrow> rat \<Rightarrow> (ident \<rightharpoonup> customer) \<Rightarrow> (ident \<rightharpoonup> customer)" where
  "debited cid amount cs =
     (if truthy_str cid \<and> \<lfloor>amount / 10\<rfloor> > 0 then
        (case cs (the cid) of
           None \<Rightarrow> cs
         | Some c \<Rightarrow> cs(the cid \<mapsto>
             c\<lparr>totalPurchases := totalPurchases c - amount,
               loyaltyPoints := loyaltyPoints c - \<lfloor>amount / 10\<rfloor>\<rparr>))
      else cs)"

definition debit_entries :: "ident option \<Rightarrow> rat \<Rightarrow> loyalty_entry list" where
  "debit_entries cid amount =
     (if truthy_str cid \<and> \<lfloor>amount / 10\<rfloor> > 0
      then [\<lparr>lh_customerId = the cid, lh_points = - \<lfloor>amount / 10\<rfloor>\<rparr>]
      else [])"

definition set_status :: "ident \<Rightarrow> string \<Rightarrow> invoice list \<Rightarrow> invoice list" where
  "set_status iid st ivs = map (\<lambda>i. if i_id i = iid then i\<lparr>i_status := st\<rparr> else i) ivs"

definition return_effect :: "invoice \<Rightarrow> return_data \<Rightarrow> db \<Rightarrow> db" where
  "return_effect ivc data d =
     (if str_or (r_status data) ''COMPLETED'' = ''COMPLETED'' then
        d\<lparr>products := stock_after (return_lines data) (products d),
          stockHistory := stockHistory d
             @ map (history_entry ''return'' (the (r_invoiceId data))) (return_lines data),
          invoices := (if allItemsReturned ivc data
                       then set_status (the (r_invoiceId data)) ''REFUNDED'' (invoices d)
                       else invoices d),
          customers := debited (i_customerId ivc) (r_totalAmount data) (customers d),
          loyaltyHistory := loyaltyHistory d
             @ debit_entries (i_customerId ivc) (r_totalAmount data)\<rparr>
      else d)"

text \<open>The store after each workflow has run to its end: all of its writes together.\<close>

definition invoice_effect :: "session \<Rightarrow> string \<Rightarrow> ident \<Rightarrow> invoice_data \<Rightarrow> db \<Rightarrow> db" where
  "invoice_effect s num newId data d =
     d\<lparr>invoices := invoices d @ [new_invoice s num newId data],
       products := stock_after (sale_lines (items data)) (products d),
       stockHistory := stockHistory d @ map (sale_entry newId) (items data),
       customers := credited data (customers d),
       loyaltyHistory := loyaltyHistory d @ credit_entries data (customers d),
       activityLog := activityLog d
          @ [\<lparr>al_userId = s_userId s, al_action = ''CREATE_INVOICE''\<rparr>]\<rparr>"

definition void_effect :: "session \<Rightarrow> invoice \<Rightarrow> ident \<Rightarrow> db \<Rightarrow> db" where
  "void_effect s ex iid d =
     d\<lparr>products := stock_after (void_lines ex) (products d),
       stockHistory := stockHistory d @ map (history_entry ''adjustment'' iid) (void_lines ex),
       invoices := set_status iid ''VOIDED'' (invoices d),
       customers := debited (i_customerId ex) (i_totalAmount ex) (customers d),
       loyaltyHistory := loyaltyHistory d @ debit_entries (i_customerId ex) (i_totalAmount ex),
       activityLog := activityLog d
          @ [\<lparr>al_userId = s_userId s, al_action = ''VOID_INVOICE''\<rparr>]\<rparr>"

definition return_written :: "session \<Rightarrow> invoice \<Rightarrow> return_data \<Rightarrow> db \<Rightarrow> db" where
  "return_written s ivc data d =
     (return_effect ivc data d)
       \<lparr>returnOrders := returnOrders d @ [new_return data],
        activityLog := activityLog d
           @ [\<lparr>al_userId = s_userId s, al_action = ''CREATE_RETURN''\<rparr>]\<rparr>"

text \<open>
  The quantities a request sells of a product and an invoice holds of it, and the left
  side of the totals relation of an invoice.
\<close>

definition sold :: "ident \<Rightarrow> item_data list \<Rightarrow> int" where
  "sold pid its = sum_list (map quantity (filter (\<lambda>item. productId item = pid) its))"

definition invoiced :: "ident \<Rightarrow> invoice \<Rightarrow> int" where
  "invoiced pid ivc =
     sum_list (map ii_quantity (filter (\<lambda>item. ii_productId item = pid) (i_items ivc)))"

definition lines_total :: "invoice \<Rightarrow> rat" where
  "lines_total ivc = sum_list (map ii_total (i_items ivc)) + i_taxAmount ivc - i_discountAmount ivc"

section \<open>Example stores and requests\<close>

text \<open>
  A shop with one unit of product \<open>p1\<close>, one customer and one user; the same shop
  after an invoice of five units; sessions of a user the store knows (\<open>staff\<close>) and
  of one it does not (\<open>stranger\<close>); request bodies.
\<close>

definition shop :: db where
  "shop = \<lparr>users = {''u1''},
           products = [''p1'' \<mapsto> \<lparr>stock = 1\<rparr>],
           customers = [''c1'' \<mapsto> \<lparr>loyaltyPoints = 0, totalPurchases = 0\<rparr>],
           invoices = [], returnOrders = [], stockHistory = [], loyaltyHistory = [],
           activityLog = []\<rparr>"

definition sold_shop :: db where
  "sold_shop =
     \<lparr>users = {''u1''},
      products = [''p1'' \<mapsto> \<lparr>stock = 0\<rparr>],
      customers = [''c1'' \<mapsto> \<lparr>loyaltyPoints = 5, totalPurchases = 50\<rparr>],
      invoices =
        [\<lparr>i_id = ''i1'', i_invoiceNumber = ''INV-20240101-1000'', i_customerId = Some ''c1'',
          i_userId = ''u1'', i_subtotal = 50, i_taxAmount = 0, i_discountAmount = 0,
          i_totalAmount = 50, i_status = ''PAID'', i_paymentMethod = ''CASH'',
          i_items = [\<lparr>ii_productId = ''p1'', ii_quantity = 5, ii_unitPrice = 10,
                      ii_taxRate = 0, ii_taxAmount = 0, ii_discount = 0, ii_total = 50\<rparr>]\<rparr>],
      returnOrders = [], stockHistory = [], loyaltyHistory = [], activityLog = []\<rparr>"

definition returned_shop :: db where
  "returned_shop = sold_shop\<lparr>returnOrders :=
     [\<lparr>ro_invoiceId = ''i1'', ro_totalAmount = 10, ro_status = ''PENDING'',
       ro_items = [\<lparr>ri_productId = ''p1'', ri_quantity = 1, ri_unitPrice = 10, ri_total = 10\<rparr>]\<rparr>]\<rparr>"

definition staff :: "string \<Rightarrow> session option" where
  "staff r = Some \<lparr>s_userId = ''u1'', s_role = r\<rparr>"

definition stranger :: "string \<Rightarrow> session option" where
  "stranger r = Some \<lparr>s_userId = ''u0'', s_role = r\<rparr>"

definition line :: "ident \<Rightarrow> int \<Rightarrow> rat \<Rightarrow> item_data" where
  "line pid q t = \<lparr>productId = pid, quantity = q, unitPrice = t, taxRate = None,
                   item_taxAmount = None, discount = None, item_total = t\<rparr>"

definition order :: "ident option \<Rightarrow> rat \<Rightarrow> item_data list \<Rightarrow> invoice_data" where
  "order cid tot its = \<lparr>customerId = cid, subtotal = tot, taxAmount = 0, discountAmount = None,
                         totalAmount = tot, status = None, paymentMethod = ''CASH'', items = its\<rparr>"

definition refund :: "string option \<Rightarrow> rat \<Rightarrow> (ident \<times> int) list \<Rightarrow> return_data" where
  "refund st amount ls =
     \<lparr>r_invoiceId = Some ''i1'', r_totalAmount = amount, r_status = st,
      r_items = map (\<lambda>x. \<lparr>r_productId = fst x, r_quantity = snd x, r_unitPrice = 10,
                            r_total = 10 * of_int (snd x)\<rparr>) ls\<rparr>"

definition small_sale :: "response \<times> db" where
  "small_sale = POST_invoices (staff ''CASHIER'') ''INV-20240101-1000'' ''i1''
                  (order (Some ''c1'') 5 [line ''p1'' 1 5]) shop"

definition small_sale_voided :: "response \<times> db" where
  "small_sale_voided = DELETE_invoice (staff ''ADMIN'') ''i1'' (snd small_sale)"

definition split_return :: "response \<times> db" where
  "split_return = POST_returns (staff ''MANAGER'') (refund None 50 [(''p1'', 2), (''p1'', 3)])
                    sold_shop"

definition first_sale :: "response \<times> db" where
  "first_sale = POST_invoices (staff ''CASHIER'') ''INV-20240101-1000'' ''i1''
                  (order None 20 [line ''p1'' 1 20]) shop"

definition second_sale :: "response \<times> db" where
  "second_sale = POST_invoices (staff ''CASHIER'') ''INV-20240101-2000'' ''i2''
                   (order None 20 [line ''p1'' 1 20]) (snd first_sale)"

definition week_sales :: "category_sale list" where
  "week_sales =
     [\<lparr>cs_total = 10, cs_categoryId = None, cs_categoryName = None\<rparr>,
      \<lparr>cs_total = 20, cs_categoryId = Some ''cat1'', cs_categoryName = Some ''Food''\<rparr>,
      \<lparr>cs_total = 10, cs_categoryId = Some ''cat1'', cs_categoryName = Some ''Food''\<rparr>]"

definition free_sales :: "payment_sale list" where
  "free_sales =
     [\<lparr>ps_paymentMethod = ''CASH'', ps_totalAmount = 0\<rparr>,
      \<lparr>ps_paymentMethod = ''CHEQUE'', ps_totalAmount = 0\<rparr>]"

definition till_sales :: "payment_sale list" where
  "till_sales =
     [\<lparr>ps_paymentMethod = ''CARD'', ps_totalAmount = 25\<rparr>,
      \<lparr>ps_paymentMethod = ''CASH'', ps_totalAmount = 10\<rparr>,
      \<lparr>ps_paymentMethod = ''CASH'', ps_totalAmount = 65\<rparr>]"

definition odd_sales :: "payment_sale list" where
  "odd_sales =
     [\<lparr>ps_paymentMethod = ''constructor'', ps_totalAmount = 50\<rparr>,
      \<lparr>ps_paymentMethod = ''2'', ps_totalAmount = 5\<rparr>,
      \<lparr>ps_paymentMethod = ''CASH'', ps_totalAmount = 10\<rparr>,
      \<lparr>ps_paymentMethod = ''1'', ps_totalAmount = 5\<rparr>]"

section \<open>Lemmas about the store calls and the loops\<close>

lemma thenE_throw [simp]: "thenE (Some e, d1) f = (Some e, d1)"
  by (simp add: thenE_def)

lemma thenE_ok [simp]: "thenE (None, d1) f = f d1"
  by (simp add: thenE_def)

lemma thenE_ok_iff: "thenE m f = (None, r) \<longleftrightarrow> (\<exists>d1. m = (None, d1) \<and> f d1 = (None, r))"
  by (cases m) (auto simp: thenE_def split: option.splits)

lemma floor_rat_numeral_div [simp]:
  "\<lfloor>(numeral a :: rat) / numeral b\<rfloor> = numeral a div numeral b"
  using floor_divide_of_int_eq [where ?'a = rat, of "numeral a" "numeral b"] by simp

lemma floor_rat_one_div [simp]: "\<lfloor>(1 :: rat) / numeral b\<rfloor> = 1 div numeral b"
  using floor_divide_of_int_eq [where ?'a = rat, of 1 "numeral b"] by simp

lemma stock_after_Nil [simp]: "stock_after [] ps = ps"
  by (rule ext) (simp add: stock_after_def option.map_ident)

lemma stock_after_None [simp]: "stock_after ls ps pid = None \<longleftrightarrow> ps pid = None"
  by (simp add: stock_after_def)

lemma stock_after_Cons:
  "ps pid = Some p \<Longrightarrow>
   stock_after rest (ps(pid \<mapsto> p\<lparr>stock := stock p + qty\<rparr>)) = stock_after ((pid, qty) # rest) ps"
  by (rule ext) (auto simp: stock_after_def)

lemma restock_ok_iff:
  "restock ty iid ls d = (None, d') \<longleftrightarrow>
     (\<forall>x \<in> set ls. products d (fst x) \<noteq> None)
     \<and> d' = d\<lparr>products := stock_after ls (products d),
               stockHistory := stockHistory d @ map (history_entry ty iid) ls\<rparr>"
proof (induction ls arbitrary: d)
  case Nil
  show ?case by auto
next
  case (Cons x rest)
  obtain pid qty where x: "x = (pid, qty)" by (cases x)
  show ?case
  proof (cases "products d pid")
    case None
    then show ?thesis by (simp add: x product_update_stock_def)
  next
    case (Some p)
    let ?d2 = "d\<lparr>products := (products d)(pid \<mapsto> p\<lparr>stock := stock p + qty\<rparr>),
                 stockHistory := stockHistory d @ [history_entry ty iid (pid, qty)]\<rparr>"
    have step: "restock ty iid (x # rest) d = restock ty iid rest ?d2"
      using Some by (simp add: x product_update_stock_def stockHistory_create_def history_entry_def)
    have dom: "(\<forall>y \<in> set rest. products ?d2 (fst y) \<noteq> None)
               \<longleftrightarrow> (\<forall>y \<in> set (x # rest). products d (fst y) \<noteq> None)"
      using Some by (auto simp: x)
    show ?thesis
      unfolding step Cons.IH dom
      using Some by (simp add: x stock_after_Cons)
  qed
qed

lemma restock_ok:
  assumes "restock ty iid ls d = (None, d')"
  shows "d' = d\<lparr>products := stock_after ls (products d),
                 stockHistory := stockHistory d @ map (history_entry ty iid) ls\<rparr>"
    and "\<forall>x \<in> set ls. products d (fst x) \<noteq> None"
  using assms unfolding restock_ok_iff by auto

lemma sell_items_ok_iff:
  "sell_items iid its d = (None, d') \<longleftrightarrow>
     (\<forall>item \<in> set its. products d (productId item) \<noteq> None)
     \<and> d' = d\<lparr>products := stock_after (sale_lines its) (products d),
               stockHistory := stockHistory d @ map (sale_entry iid) its\<rparr>"
proof (induction its arbitrary: d)
  case Nil
  show ?case by (auto simp: sale_lines_def)
next
  case (Cons item rest)
  show ?case
  proof (cases "products d (productId item)")
    case None
    then show ?thesis by simp
  next
    case (Some p)
    let ?d2 = "d\<lparr>products := (products d)(productId item \<mapsto> p\<lparr>stock := stock p + - quantity item\<rparr>),
                 stockHistory := stockHistory d @ [sale_entry iid item]\<rparr>"
    have step: "sell_items iid (item # rest) d = sell_items iid rest ?d2"
      using Some by (simp add: product_update_stock_def stockHistory_create_def sale_entry_def)
    have dom: "(\<forall>i \<in> set rest. products ?d2 (productId i) \<noteq> None)
               \<longleftrightarrow> (\<forall>i \<in> set (item # rest). products d (productId i) \<noteq> None)"
      using Some by auto
    have after: "stock_after (sale_lines rest) (products ?d2)
                 = stock_after (sale_lines (item # rest)) (products d)"
      using stock_after_Cons [of "products d" "productId item" p "sale_lines rest" "- quantity item"] Some
      by (simp add: sale_lines_def)
    show ?thesis
      unfolding step Cons.IH dom after [symmetric]
      by simp
  qed
qed

lemma sell_items_ok:
  assumes "sell_items iid its d = (None, d')"
  shows "d' = d\<lparr>products := stock_after (sale_lines its) (products d),
                 stockHistory := stockHistory d @ map (sale_entry iid) its\<rparr>"
    and "\<forall>item \<in> set its. products d (productId item) \<noteq> None"
  using assms unfolding sell_items_ok_iff by auto

lemma sold_sale_lines:
  "sum_list (map snd (filter (\<lambda>x. fst x = pid) (sale_lines its))) = - sold pid its"
  by (induction its) (auto simp: sale_lines_def sold_def)

lemma invoiced_void_lines:
  "sum_list (map snd (filter (\<lambda>x. fst x = pid) (void_lines ivc))) = invoiced pid ivc"
  unfolding void_lines_def invoiced_def
  by (induction "i_items ivc" arbitrary: ivc) (auto simp: filter_map comp_def)

lemma invoiced_new_invoice:
  "invoiced pid (new_invoice s num newId data) = sold pid (items data)"
  unfolding invoiced_def sold_def new_invoice_def
  by (induction "items data" arbitrary: data) (auto simp: filter_map comp_def item_row_def)

lemma find_new_row:
  "x \<notin> f ` set xs \<Longrightarrow> find (\<lambda>i. f i = x) (xs @ [y]) = (if f y = x then Some y else None)"
  by (induction xs) auto

lemma find_set_status:
  "find (\<lambda>i. i_id i = iid) (set_status iid st ivs)
   = map_option (\<lambda>i. i\<lparr>i_status := st\<rparr>) (find (\<lambda>i. i_id i = iid) ivs)"
  by (induction ivs) (auto simp: set_status_def)

lemma invoice_create_ok:
  assumes "invoice_create ivc d = (None, d')"
  shows "d' = d\<lparr>invoices := invoices d @ [ivc]\<rparr>"
    and "i_id ivc \<notin> i_id ` set (invoices d)"
    and "\<forall>it \<in> set (i_items ivc). products d (ii_productId it) \<noteq> None"
    and "\<forall>c. i_customerId ivc = Some c \<longrightarrow> customers d c \<noteq> None"
  using assms unfolding invoice_create_def
  by (auto split: if_splits option.splits)

lemma invoice_update_status_ok:
  assumes "invoice_update_status iid st d = (None, d')"
  shows "d' = d\<lparr>invoices := set_status iid st (invoices d)\<rparr>"
  using assms by (auto simp: invoice_update_status_def set_status_def split: if_splits)

lemma credit_customer_eq:
  "credit_customer data d =
     (None, d\<lparr>customers := credited data (customers d),
              loyaltyHistory := loyaltyHistory d @ credit_entries data (customers d)\<rparr>)"
  by (auto simp: credit_customer_def credited_def credit_entries_def customer_update_def
      loyaltyHistory_create_def Let_def split: option.splits)

lemma credited_None [simp]: "credited data cs c = None \<longleftrightarrow> cs c = None"
  by (auto simp: credited_def split: option.splits)

lemma debit_customer_ok:
  assumes "debit_customer cid amount d = (None, d')"
  shows "d' = d\<lparr>customers := debited cid amount (customers d),
                 loyaltyHistory := loyaltyHistory d @ debit_entries cid amount\<rparr>"
  using assms
  by (auto simp: debit_customer_def debited_def debit_entries_def customer_update_def
      loyaltyHistory_create_def Let_def thenE_def split: option.splits if_splits)

section \<open>Lemmas about the three transactions and their handlers\<close>

lemma create_invoice_tx_ok:
  assumes "create_invoice_tx s num newId data d = (None, d')"
  shows "d' = d\<lparr>invoices := invoices d @ [new_invoice s num newId data],
                 products := stock_after (sale_lines (items data)) (products d),
                 stockHistory := stockHistory d @ map (sale_entry newId) (items data),
                 customers := credited data (customers d),
                 loyaltyHistory := loyaltyHistory d @ credit_entries data (customers d),
                 activityLog := activityLog d
                    @ [\<lparr>al_userId = s_userId s, al_action = ''CREATE_INVOICE''\<rparr>]\<rparr>"
    and "\<forall>item \<in> set (items data). products d (productId item) \<noteq> None"
    and "newId \<notin> i_id ` set (invoices d)"
proof -
  from assms obtain d1 d2 where
    1: "invoice_create (new_invoice s num newId data) d = (None, d1)" and
    2: "sell_items newId (items data) d1 = (None, d2)" and
    3: "activityLog_create \<lparr>al_userId = s_userId s, al_action = ''CREATE_INVOICE''\<rparr>
          (d2\<lparr>customers := credited data (customers d2),
              loyaltyHistory := loyaltyHistory d2 @ credit_entries data (customers d2)\<rparr>) = (None, d')"
    unfolding create_invoice_tx_def thenE_ok_iff credit_customer_eq by auto
  note a = invoice_create_ok [OF 1]
  note b = sell_items_ok [OF 2]
  from 3 show "d' = d\<lparr>invoices := invoices d @ [new_invoice s num newId data],
                 products := stock_after (sale_lines (items data)) (products d),
                 stockHistory := stockHistory d @ map (sale_entry newId) (items data),
                 customers := credited data (customers d),
                 loyaltyHistory := loyaltyHistory d @ credit_entries data (customers d),
                 activityLog := activityLog d
                    @ [\<lparr>al_userId = s_userId s, al_action = ''CREATE_INVOICE''\<rparr>]\<rparr>"
    unfolding activityLog_create_def b(1) a(1)
    by (auto split: if_splits)
  from b(2) show "\<forall>item \<in> set (items data). products d (productId item) \<noteq> None"
    unfolding a(1) by simp
  from a(2) show "newId \<notin> i_id ` set (invoices d)"
    by (simp add: new_invoice_def)
qed

lemma create_invoice_tx_runs:
  assumes "invoice_create (new_invoice s num newId data) d = (None, d1)"
  shows "\<exists>d'. create_invoice_tx s num newId data d = (None, d')"
proof -
  note a = invoice_create_ok [OF assms]
  have user: "s_userId s \<in> users d"
    using assms by (auto simp: invoice_create_def new_invoice_def split: if_splits)
  have "\<forall>item \<in> set (items data). products d1 (productId item) \<noteq> None"
    using a(3) unfolding a(1) by (simp add: new_invoice_def item_row_def)
  then obtain d2 where "sell_items newId (items data) d1 = (None, d2)" and "users d2 = users d1"
    using sell_items_ok_iff [of newId "items data" d1] by simp
  then show ?thesis
    unfolding create_invoice_tx_def assms
    using user
    by (simp add: credit_customer_eq activityLog_create_def a(1))
qed

lemma POST_invoices_cases:
  assumes "POST_invoices sess num newId data d = (resp, d')"
  shows "(code resp \<noteq> 201 \<and> error resp \<noteq> None \<and> d' = d)
         \<or> (code resp = 201 \<and> error resp = None \<and>
             (\<exists>s. sess = Some s \<and> isCashier (s_role s) \<and> items data \<noteq> []
                \<and> create_invoice_tx s num newId data d = (None, d')))"
  using assms unfolding POST_invoices_def transaction_def json_error_def json_ok_def
  by (auto split: option.splits if_splits prod.splits)

lemma void_invoice_tx_ok:
  assumes "void_invoice_tx s ex iid d = (None, d')"
  shows "d' = d\<lparr>products := stock_after (void_lines ex) (products d),
                 stockHistory := stockHistory d @ map (history_entry ''adjustment'' iid) (void_lines ex),
                 invoices := set_status iid ''VOIDED'' (invoices d),
                 customers := debited (i_customerId ex) (i_totalAmount ex) (customers d),
                 loyaltyHistory := loyaltyHistory d
                    @ debit_entries (i_customerId ex) (i_totalAmount ex),
                 activityLog := activityLog d
                    @ [\<lparr>al_userId = s_userId s, al_action = ''VOID_INVOICE''\<rparr>]\<rparr>"
proof -
  from assms obtain d1 d2 d3 where
    1: "restock ''adjustment'' iid (void_lines ex) d = (None, d1)" and
    2: "invoice_update_status iid ''VOIDED'' d1 = (None, d2)" and
    3: "debit_customer (i_customerId ex) (i_totalAmount ex) d2 = (None, d3)" and
    4: "activityLog_create \<lparr>al_userId = s_userId s, al_action = ''VOID_INVOICE''\<rparr> d3 = (None, d')"
    unfolding void_invoice_tx_def thenE_ok_iff void_lines_def by auto
  from 4 show ?thesis
    unfolding activityLog_create_def debit_customer_ok [OF 3]
      invoice_update_status_ok [OF 2] restock_ok(1) [OF 1]
    by (auto split: if_splits)
qed

lemma void_invoice_tx_runs:
  assumes "invoice_findUnique d iid = Some ex"
    and "\<forall>item \<in> set (i_items ex). products d (ii_productId item) \<noteq> None"
    and "\<forall>c. i_customerId ex = Some c \<longrightarrow> customers d c \<noteq> None"
    and "s_userId s \<in> users d"
  shows "\<exists>d'. void_invoice_tx s ex iid d = (None, d')"
proof -
  let ?ls = "map (\<lambda>item. (ii_productId item, ii_quantity item)) (i_items ex)"
  let ?d1 = "d\<lparr>products := stock_after ?ls (products d),
               stockHistory := stockHistory d @ map (history_entry ''adjustment'' iid) ?ls\<rparr>"
  have 1: "restock ''adjustment'' iid ?ls d = (None, ?d1)"
    using assms(2) by (simp add: restock_ok_iff)
  show ?thesis
    unfolding void_invoice_tx_def 1
    using assms(1,3,4)
    by (auto simp: invoice_update_status_def debit_customer_def invoice_findUnique_def
        customer_update_def loyaltyHistory_create_def activityLog_create_def Let_def
        truthy_str_def split: option.splits)
qed

lemma DELETE_invoice_cases:
  assumes "DELETE_invoice sess iid d = (resp, d')"
  shows "(code resp \<noteq> 200 \<and> error resp \<noteq> None \<and> d' = d)
         \<or> (code resp = 200 \<and> error resp = None \<and>
             (\<exists>s ex. sess = Some s \<and> isAdmin (s_role s) \<and> invoice_findUnique d iid = Some ex
                \<and> i_status ex \<noteq> ''VOIDED'' \<and> returnOrder_findFirst d iid = None
                \<and> void_invoice_tx s ex iid d = (None, d')))"
  using assms unfolding DELETE_invoice_def transaction_def json_error_def json_ok_def
  by (auto split: option.splits if_splits prod.splits)

lemma check_return_items_Some:
  "check_return_items ivc its = Some r \<Longrightarrow> code r = 400 \<and> error r \<noteq> None"
  by (induction its) (auto simp: json_error_def split: option.splits if_splits)

lemma check_return_items_None_iff:
  "check_return_items ivc its = None \<longleftrightarrow>
     (\<forall>item \<in> set its. \<exists>l. find (\<lambda>i. ii_productId i = r_productId item) (i_items ivc) = Some l
                              \<and> r_quantity item \<le> ii_quantity l)"
  by (induction its) (auto split: option.splits)

lemma find_None_productId:
  "find (\<lambda>i. ii_productId i = p) ls = None \<longleftrightarrow> p \<notin> ii_productId ` set ls"
  by (auto simp: find_None_iff)

lemma find_distinct_productId:
  "distinct (map r_productId its) \<Longrightarrow> r \<in> set its \<Longrightarrow>
   find (\<lambda>item. r_productId item = r_productId r) its = Some r"
  by (induction its) (auto simp: rev_image_eqI)

lemma find_absent_productId:
  "find (\<lambda>item. r_productId item = p) its = None \<longleftrightarrow> (\<forall>r \<in> set its. r_productId r \<noteq> p)"
  by (auto simp: find_None_iff)

lemma complete_return_ok:
  assumes "complete_return ivc data d = (None, d')"
  shows "d' = d\<lparr>products := stock_after (return_lines data) (products d),
          stockHistory := stockHistory d
             @ map (history_entry ''return'' (the (r_invoiceId data))) (return_lines data),
          invoices := (if allItemsReturned ivc data
                       then set_status (the (r_invoiceId data)) ''REFUNDED'' (invoices d)
                       else invoices d),
          customers := debited (i_customerId ivc) (r_totalAmount data) (customers d),
          loyaltyHistory := loyaltyHistory d
             @ debit_entries (i_customerId ivc) (r_totalAmount data)\<rparr>"
proof -
  from assms obtain d1 d2 where
    1: "restock ''return'' (the (r_invoiceId data)) (return_lines data) d = (None, d1)" and
    2: "(if allItemsReturned ivc data
         then invoice_update_status (the (r_invoiceId data)) ''REFUNDED'' d1 else (None, d1)) = (None, d2)" and
    3: "debit_customer (i_customerId ivc) (r_totalAmount data) d2 = (None, d')"
    unfolding complete_return_def thenE_ok_iff return_lines_def by auto
  have d2: "d2 = d1\<lparr>invoices := (if allItemsReturned ivc data
                       then set_status (the (r_invoiceId data)) ''REFUNDED'' (invoices d1)
                       else invoices d1)\<rparr>"
    using 2 invoice_update_status_ok by (auto split: if_splits)
  show ?thesis
    unfolding debit_customer_ok [OF 3] d2 restock_ok(1) [OF 1] by simp
qed

lemma create_return_tx_ok:
  assumes "create_return_tx s ivc data d = (None, d')"
  shows "d' = (return_effect ivc data d)
           \<lparr>returnOrders := returnOrders d @ [new_return data],
            activityLog := activityLog d
               @ [\<lparr>al_userId = s_userId s, al_action = ''CREATE_RETURN''\<rparr>]\<rparr>"
proof -
  from assms obtain d1 d2 where
    1: "returnOrder_create (new_return data) d = (None, d1)" and
    2: "(if ro_status (new_return data) = ''COMPLETED'' then complete_return ivc data d1
         else (None, d1)) = (None, d2)" and
    3: "activityLog_create \<lparr>al_userId = s_userId s, al_action = ''CREATE_RETURN''\<rparr> d2 = (None, d')"
    unfolding create_return_tx_def thenE_ok_iff Let_def by auto
  have d1: "d1 = d\<lparr>returnOrders := returnOrders d @ [new_return data]\<rparr>"
    using 1 by (auto simp: returnOrder_create_def split: if_splits)
  have st: "ro_status (new_return data) = str_or (r_status data) ''COMPLETED''"
    by (simp add: new_return_def)
  have d2: "d2 = (return_effect ivc data d)\<lparr>returnOrders := returnOrders d @ [new_return data]\<rparr>"
  proof (cases "str_or (r_status data) ''COMPLETED'' = ''COMPLETED''")
    case True
    with 2 st have "complete_return ivc data d1 = (None, d2)" by simp
    from complete_return_ok [OF this] True show ?thesis
      unfolding d1 return_effect_def by simp
  next
    case False
    with 2 st have "d2 = d1" by simp
    with False show ?thesis unfolding d1 return_effect_def by simp
  qed
  from 3 show ?thesis
    unfolding activityLog_create_def d2 return_effect_def
    by (auto split: if_splits)
qed

lemma POST_returns_cases:
  assumes "POST_returns sess data d = (resp, d')"
  shows "(code resp \<noteq> 201 \<and> error resp \<noteq> None \<and> d' = d)
         \<or> (code resp = 201 \<and> error resp = None \<and>
             (\<exists>s ivc. sess = Some s \<and> isManager (s_role s) \<and> truthy_str (r_invoiceId data)
                \<and> r_items data \<noteq> []
                \<and> invoice_findUnique d (the (r_invoiceId data)) = Some ivc
                \<and> check_return_items ivc (r_items data) = None
                \<and> create_return_tx s ivc data d = (None, d')))"
  using assms check_return_items_Some
  unfolding POST_returns_def transaction_def json_error_def json_ok_def
  by (fastforce split: option.splits if_splits prod.splits)

lemmas handler_defs =
  POST_invoices_def transaction_def create_invoice_tx_def invoice_create_def new_invoice_def
  item_row_def credit_customer_def activityLog_create_def product_update_stock_def
  stockHistory_create_def customer_update_def loyaltyHistory_create_def
  json_error_def json_ok_def isCashier_def isAdmin_def isManager_def
  truthy_str_def str_or_def str_or_null_def num_or_zero_def thenE_def
  shop_def staff_def line_def order_def

lemmas void_defs =
  DELETE_invoice_def void_invoice_tx_def invoice_findUnique_def returnOrder_findFirst_def
  invoice_update_status_def debit_customer_def sold_shop_def stranger_def

lemmas return_defs =
  POST_returns_def create_return_tx_def complete_return_def new_return_def
  returnOrder_create_def allItemsReturned_def refund_def

lemma small_sale_eq:
  "small_sale = (json_ok 201,
     \<lparr>users = {''u1''},
      products = [''p1'' \<mapsto> \<lparr>stock = 0\<rparr>],
      customers = [''c1'' \<mapsto> \<lparr>loyaltyPoints = 0, totalPurchases = 5\<rparr>],
      invoices =
        [\<lparr>i_id = ''i1'', i_invoiceNumber = ''INV-20240101-1000'', i_customerId = Some ''c1'',
          i_userId = ''u1'', i_subtotal = 5, i_taxAmount = 0, i_discountAmount = 0,
          i_totalAmount = 5, i_status = ''PAID'', i_paymentMethod = ''CASH'',
          i_items = [\<lparr>ii_productId = ''p1'', ii_quantity = 1, ii_unitPrice = 5,
                      ii_taxRate = 0, ii_taxAmount = 0, ii_discount = 0, ii_total = 5\<rparr>]\<rparr>],
      returnOrders = [],
      stockHistory = [\<lparr>sh_productId = ''p1'', sh_quantity = 1, sh_type = ''sale'',
                        sh_invoiceId = Some ''i1''\<rparr>],
      loyaltyHistory = [],
      activityLog = [\<lparr>al_userId = ''u1'', al_action = ''CREATE_INVOICE''\<rparr>]\<rparr>)"
  by (simp add: small_sale_def handler_defs)

section \<open>C1: what invoice creation validates\<close>




section \<open>C2: the workflows are atomic\<close>

text \<open>
  The store can show a partial write: a run of statements that throws leaves its earlier
  writes behind, and a handler that writes outside a transaction hands them on. The
  update handler does: when its activity log entry fails, the answer is 500 and the
  invoice has its new status all the same.
\<close>

lemma PUT_invoice_partial_write:
  "code (fst (PUT_invoice (stranger ''ADMIN'') ''i1''
                \<lparr>p_status = Some ''DRAFT'', p_paymentMethod = None\<rparr> sold_shop)) = 500
   \<and> map_option i_status (invoice_findUnique sold_shop ''i1'') = Some ''PAID''
   \<and> map_option i_status
        (invoice_findUnique (snd (PUT_invoice (stranger ''ADMIN'') ''i1''
                \<lparr>p_status = Some ''DRAFT'', p_paymentMethod = None\<rparr> sold_shop)) ''i1'')
      = Some ''DRAFT''"
  by (simp add: PUT_invoice_def invoice_update_fields_def handler_defs void_defs)

text \<open>
  C2. Each of the three workflows (invoice creation, invoice void, return creation) is
  all or nothing: either the answer is not the success code and the store is exactly as
  it was, or the answer is the success code and the store holds all the writes of the
  workflow together. When a step inside the transaction throws, whatever the steps
  before it had written, the answer is 500 and the store is as it was. In particular a
  creation request with a line whose product does not exist gets an error response (403
  for an unauthorised caller, 500 otherwise) and leaves the whole store, so every
  stock, the invoices, both ledgers and the customers, unchanged.
\<close>

theorem workflows_atomic:
  "(code (fst (POST_invoices sess num newId data d)) \<noteq> 201
      \<and> snd (POST_invoices sess num newId data d) = d
    \<or> code (fst (POST_invoices sess num newId data d)) = 201
      \<and> (\<exists>s. sess = Some s
             \<and> snd (POST_invoices sess num newId data d) = invoice_effect s num newId data d))
   \<and> (code (fst (DELETE_invoice sess iid d)) \<noteq> 200 \<and> snd (DELETE_invoice sess iid d) = d
    \<or> code (fst (DELETE_invoice sess iid d)) = 200
      \<and> (\<exists>s ex. sess = Some s \<and> invoice_findUnique d iid = Some ex
             \<and> snd (DELETE_invoice sess iid d) = void_effect s ex iid d))
   \<and> (code (fst (POST_returns sess rdata d)) \<noteq> 201 \<and> snd (POST_returns sess rdata d) = d
    \<or> code (fst (POST_returns sess rdata d)) = 201
      \<and> (\<exists>s ivc. sess = Some s \<and> invoice_findUnique d (the (r_invoiceId rdata)) = Some ivc
             \<and> snd (POST_returns sess rdata d) = return_written s ivc rdata d))
   \<and> (\<forall>s e d1. sess = Some s \<and> isCashier (s_role s) \<and> items data \<noteq> []
          \<and> create_invoice_tx s num newId data d = (Some e, d1) \<longrightarrow>
        POST_invoices sess num newId data d = (json_error ''Internal Server Error'' 500, d))
   \<and> (\<forall>s ex e d1. sess = Some s \<and> isAdmin (s_role s) \<and> invoice_findUnique d iid = Some ex
          \<and> i_status ex \<noteq> ''VOIDED'' \<and> returnOrder_findFirst d iid = None
          \<and> void_invoice_tx s ex iid d = (Some e, d1) \<longrightarrow>
        DELETE_invoice sess iid d = (json_error ''Internal Server Error'' 500, d))
   \<and> (\<forall>s ivc e d1. sess = Some s \<and> isManager (s_role s) \<and> truthy_str (r_invoiceId rdata)
          \<and> r_items rdata \<noteq> [] \<and> invoice_findUnique d (the (r_invoiceId rdata)) = Some ivc
          \<and> check_return_items ivc (r_items rdata) = None
          \<and> create_return_tx s ivc rdata d = (Some e, d1) \<longrightarrow>
        POST_returns sess rdata d = (json_error ''Internal Server Error'' 500, d))
   \<and> ((\<exists>item \<in> set (items data). products d (productId item) = None) \<longrightarrow>
        error (fst (POST_invoices sess num newId data d)) \<noteq> None
        \<and> code (fst (POST_invoices sess num newId data d)) \<in> {403, 500}
        \<and> snd (POST_invoices sess num newId data d) = d)"
proof -
  have creation: "code (fst (POST_invoices sess num newId data d)) \<noteq> 201
      \<and> snd (POST_invoices sess num newId data d) = d
    \<or> code (fst (POST_invoices sess num newId data d)) = 201
      \<and> (\<exists>s. sess = Some s
             \<and> snd (POST_invoices sess num newId data d) = invoice_effect s num newId data d)"
    using POST_invoices_cases [OF surjective_pairing, of sess num newId data d]
      create_invoice_tx_ok(1)
    unfolding invoice_effect_def by blast
  have void: "code (fst (DELETE_invoice sess iid d)) \<noteq> 200 \<and> snd (DELETE_invoice sess iid d) = d
    \<or> code (fst (DELETE_invoice sess iid d)) = 200
      \<and> (\<exists>s ex. sess = Some s \<and> invoice_findUnique d iid = Some ex
             \<and> snd (DELETE_invoice sess iid d) = void_effect s ex iid d)"
    using DELETE_invoice_cases [OF surjective_pairing, of sess iid d] void_invoice_tx_ok
    unfolding void_effect_def by blast
  have ret: "code (fst (POST_returns sess rdata d)) \<noteq> 201 \<and> snd (POST_returns sess rdata d) = d
    \<or> code (fst (POST_returns sess rdata d)) = 201
      \<and> (\<exists>s ivc. sess = Some s \<and> invoice_findUnique d (the (r_invoiceId rdata)) = Some ivc
             \<and> snd (POST_returns sess rdata d) = return_written s ivc rdata d)"
    using POST_returns_cases [OF surjective_pairing, of sess rdata d] create_return_tx_ok
    unfolding return_written_def by blast
  have creation_throws:
    "POST_invoices sess num newId data d = (json_error ''Internal Server Error'' 500, d)"
    if "sess = Some s \<and> isCashier (s_role s) \<and> items data \<noteq> []
          \<and> create_invoice_tx s num newId data d = (Some e, d1)" for s e d1
    using that by (simp add: POST_invoices_def transaction_def)
  have void_throws:
    "DELETE_invoice sess iid d = (json_error ''Internal Server Error'' 500, d)"
    if "sess = Some s \<and> isAdmin (s_role s) \<and> invoice_findUnique d iid = Some ex
          \<and> i_status ex \<noteq> ''VOIDED'' \<and> returnOrder_findFirst d iid = None
          \<and> void_invoice_tx s ex iid d = (Some e, d1)" for s ex e d1
    using that by (simp add: DELETE_invoice_def transaction_def)
  have return_throws:
    "POST_returns sess rdata d = (json_error ''Internal Server Error'' 500, d)"
    if "sess = Some s \<and> isManager (s_role s) \<and> truthy_str (r_invoiceId rdata)
          \<and> r_items rdata \<noteq> [] \<and> invoice_findUnique d (the (r_invoiceId rdata)) = Some ivc
          \<and> check_return_items ivc (r_items rdata) = None
          \<and> create_return_tx s ivc rdata d = (Some e, d1)" for s ivc e d1
    using that by (simp add: POST_returns_def transaction_def)
  have missing: "error (fst (POST_invoices sess num newId data d)) \<noteq> None
        \<and> code (fst (POST_invoices sess num newId data d)) \<in> {403, 500}
        \<and> snd (POST_invoices sess num newId data d) = d"
    if missing: "\<exists>item \<in> set (items data). products d (productId item) = None"
  proof -
    have ne: "items data \<noteq> []" using missing by auto
    have fail: "code (fst (POST_invoices sess num newId data d)) \<noteq> 201"
    proof
      assume "code (fst (POST_invoices sess num newId data d)) = 201"
      with POST_invoices_cases [OF surjective_pairing, of sess num newId data d] obtain s where
        "create_invoice_tx s num newId data d = (None, snd (POST_invoices sess num newId data d))"
        by auto
      from create_invoice_tx_ok(2) [OF this] missing show False by auto
    qed
    with POST_invoices_cases [OF surjective_pairing, of sess num newId data d]
    have "error (fst (POST_invoices sess num newId data d)) \<noteq> None"
      and "snd (POST_invoices sess num newId data d) = d" by auto
    moreover have "code (fst (POST_invoices sess num newId data d)) \<in> {403, 500}"
      using fail ne unfolding POST_invoices_def json_error_def json_ok_def
      by (auto split: option.splits prod.splits)
    ultimately show ?thesis by simp
  qed
  from creation void ret creation_throws void_throws return_throws missing
  show ?thesis by blast
qed

text \<open>
  The theorem at work on three transactions that throw: a creation with a line for the
  unknown product \<open>p9\<close>, and a void and a return whose last step (the activity log
  entry of a user the store does not know) fails. When the void throws, its body has
  already put the five units back and marked the invoice VOIDED; the handler answers 500
  and the store has the stock at 0 and the invoice PAID, as before. The return likewise.
\<close>

theorem workflows_atomic_witness:
  "POST_invoices (staff ''CASHIER'') ''INV-20240101-1000'' ''i1''
      (order None 20 [line ''p9'' 2 20]) shop = (json_error ''Internal Server Error'' 500, shop)
   \<and> fst (void_invoice_tx \<lparr>s_userId = ''u0'', s_role = ''ADMIN''\<rparr>
            (hd (invoices sold_shop)) ''i1'' sold_shop) = Some P2003
   \<and> products (snd (void_invoice_tx \<lparr>s_userId = ''u0'', s_role = ''ADMIN''\<rparr>
            (hd (invoices sold_shop)) ''i1'' sold_shop)) ''p1'' = Some \<lparr>stock = 5\<rparr>
   \<and> map i_status (invoices (snd (void_invoice_tx \<lparr>s_userId = ''u0'', s_role = ''ADMIN''\<rparr>
            (hd (invoices sold_shop)) ''i1'' sold_shop))) = [''VOIDED'']
   \<and> DELETE_invoice (stranger ''ADMIN'') ''i1'' sold_shop
       = (json_error ''Internal Server Error'' 500, sold_shop)
   \<and> products sold_shop ''p1'' = Some \<lparr>stock = 0\<rparr>
   \<and> map i_status (invoices sold_shop) = [''PAID'']
   \<and> length (returnOrders (snd (create_return_tx \<lparr>s_userId = ''u0'', s_role = ''MANAGER''\<rparr>
            (hd (invoices sold_shop)) (refund None 50 [(''p1'', 5)]) sold_shop))) = 1
   \<and> POST_returns (stranger ''MANAGER'') (refund None 50 [(''p1'', 5)]) sold_shop
       = (json_error ''Internal Server Error'' 500, sold_shop)
   \<and> returnOrders sold_shop = []"
proof -
  have a: "create_invoice_tx \<lparr>s_userId = ''u1'', s_role = ''CASHIER''\<rparr> ''INV-20240101-1000''
             ''i1'' (order None 20 [line ''p9'' 2 20]) shop = (Some P2003, shop)"
    by (simp add: handler_defs)
  have b: "void_invoice_tx \<lparr>s_userId = ''u0'', s_role = ''ADMIN''\<rparr>
             (hd (invoices sold_shop)) ''i1'' sold_shop
           = (Some P2003, snd (void_invoice_tx \<lparr>s_userId = ''u0'', s_role = ''ADMIN''\<rparr>
             (hd (invoices sold_shop)) ''i1'' sold_shop))"
    by (simp add: handler_defs void_defs)
  have c: "create_return_tx \<lparr>s_userId = ''u0'', s_role = ''MANAGER''\<rparr>
             (hd (invoices sold_shop)) (refund None 50 [(''p1'', 5)]) sold_shop
           = (Some P2003, snd (create_return_tx \<lparr>s_userId = ''u0'', s_role = ''MANAGER''\<rparr>
             (hd (invoices sold_shop)) (refund None 50 [(''p1'', 5)]) sold_shop))"
    by (simp add: handler_defs void_defs return_defs)
  have partial: "products (snd (void_invoice_tx \<lparr>s_userId = ''u0'', s_role = ''ADMIN''\<rparr>
            (hd (invoices sold_shop)) ''i1'' sold_shop)) ''p1'' = Some \<lparr>stock = 5\<rparr>"
    "map i_status (invoices (snd (void_invoice_tx \<lparr>s_userId = ''u0'', s_role = ''ADMIN''\<rparr>
            (hd (invoices sold_shop)) ''i1'' sold_shop))) = [''VOIDED'']"
    "length (returnOrders (snd (create_return_tx \<lparr>s_userId = ''u0'', s_role = ''MANAGER''\<rparr>
            (hd (invoices sold_shop)) (refund None 50 [(''p1'', 5)]) sold_shop))) = 1"
    by (simp_all add: handler_defs void_defs return_defs)
  have before: "products sold_shop ''p1'' = Some \<lparr>stock = 0\<rparr>"
    "map i_status (invoices sold_shop) = [''PAID'']" "returnOrders sold_shop = []"
    by (simp_all add: sold_shop_def)
  note creation = workflows_atomic [of "staff ''CASHIER''" "''INV-20240101-1000''" "''i1''"
      "order None 20 [line ''p9'' 2 20]" shop "''i1''" "refund None 50 [(''p1'', 5)]",
      THEN conjunct2, THEN conjunct2, THEN conjunct2, THEN conjunct1, rule_format]
  note void = workflows_atomic [of "stranger ''ADMIN''" "''INV-20240101-1000''" "''i1''"
      "order None 20 [line ''p9'' 2 20]" sold_shop "''i1''" "refund None 50 [(''p1'', 5)]",
      THEN conjunct2, THEN conjunct2, THEN conjunct2, THEN conjunct2, THEN conjunct1, rule_format]
  note return = workflows_atomic [of "stranger ''MANAGER''" "''INV-20240101-1000''" "''i1''"
      "order None 20 [line ''p9'' 2 20]" sold_shop "''i1''" "refund None 50 [(''p1'', 5)]",
      THEN conjunct2, THEN conjunct2, THEN conjunct2, THEN conjunct2, THEN conjunct2,
      THEN conjunct1, rule_format]
  have found: "invoice_findUnique sold_shop ''i1'' = Some (hd (invoices sold_shop))"
    "i_status (hd (invoices sold_shop)) \<noteq> ''VOIDED''"
    "returnOrder_findFirst sold_shop ''i1'' = None"
    by (simp_all add: invoice_findUnique_def returnOrder_findFirst_def sold_shop_def)
  have h1: "POST_invoices (staff ''CASHIER'') ''INV-20240101-1000'' ''i1''
      (order None 20 [line ''p9'' 2 20]) shop = (json_error ''Internal Server Error'' 500, shop)"
    by (rule creation [OF conjI [OF staff_def conjI [OF _ conjI [OF _ a]]]])
       (simp_all add: isCashier_def order_def)
  have h2: "DELETE_invoice (stranger ''ADMIN'') ''i1'' sold_shop
       = (json_error ''Internal Server Error'' 500, sold_shop)"
    by (rule void [OF conjI [OF stranger_def conjI [OF _ conjI [OF found(1) conjI [OF found(2)
          conjI [OF found(3) b]]]]]])
       (simp add: isAdmin_def)
  have h3: "POST_returns (stranger ''MANAGER'') (refund None 50 [(''p1'', 5)]) sold_shop
       = (json_error ''Internal Server Error'' 500, sold_shop)"
  proof -
    have f: "invoice_findUnique sold_shop (the (r_invoiceId (refund None 50 [(''p1'', 5)])))
             = Some (hd (invoices sold_shop))"
      by (simp add: refund_def found(1))
    have v: "check_return_items (hd (invoices sold_shop)) (r_items (refund None 50 [(''p1'', 5)]))
             = None"
      by (simp add: refund_def sold_shop_def)
    show ?thesis
      by (rule return [OF conjI [OF stranger_def conjI [OF _ conjI [OF _ conjI [OF _
            conjI [OF f conjI [OF v c]]]]]]])
         (simp_all add: isManager_def truthy_str_def refund_def)
  qed
  from h1 h2 h3 have handlers: "POST_invoices (staff ''CASHIER'') ''INV-20240101-1000'' ''i1''
      (order None 20 [line ''p9'' 2 20]) shop = (json_error ''Internal Server Error'' 500, shop)
   \<and> DELETE_invoice (stranger ''ADMIN'') ''i1'' sold_shop
       = (json_error ''Internal Server Error'' 500, sold_shop)
   \<and> POST_returns (stranger ''MANAGER'') (refund None 50 [(''p1'', 5)]) sold_shop
       = (json_error ''Internal Server Error'' 500, sold_shop)" by simp
  have thrown: "fst (void_invoice_tx \<lparr>s_userId = ''u0'', s_role = ''ADMIN''\<rparr>
            (hd (invoices sold_shop)) ''i1'' sold_shop) = Some P2003"
    by (simp add: handler_defs void_defs)
  from handlers thrown partial before show ?thesis by simp
qed

section \<open>C3: where the stored totals come from\<close>

text \<open>
  C3, counterexample. The claim says the stored totals are computed by the server from
  the lines, so that the lines' totals plus tax minus discount give the stored total.
  The handler stores what the client sent: a request with one line of total 100 and a
  submitted \<open>totalAmount\<close> of 5 is answered 201, and the stored invoice has total 5
  while its lines, tax and discount add up to 100.
\<close>

theorem invoice_totals_client_counterexample:
  "code (fst (POST_invoices (staff ''CASHIER'') ''INV-20240101-1000'' ''i1''
                (order None 5 [line ''p1'' 1 100]) shop)) = 201
   \<and> map_option i_totalAmount
        (invoice_findUnique (snd (POST_invoices (staff ''CASHIER'') ''INV-20240101-1000'' ''i1''
                (order None 5 [line ''p1'' 1 100]) shop)) ''i1'') = Some 5
   \<and> map_option lines_total
        (invoice_findUnique (snd (POST_invoices (staff ''CASHIER'') ''INV-20240101-1000'' ''i1''
                (order None 5 [line ''p1'' 1 100]) shop)) ''i1'') = Some 100"
  by (simp add: handler_defs invoice_findUnique_def lines_total_def)

text \<open>
  C3, as amended. For every successfully created invoice the stored subtotal,
  taxAmount, discountAmount and totalAmount are the client-submitted values
  (discountAmount 0 when absent), and every stored line total is the submitted one; the
  handler computes none of them, so the relation between the lines and the total holds
  for the stored invoice exactly when the submitted numbers satisfy it.
\<close>

theorem invoice_totals_client:
  assumes "POST_invoices sess num newId data d = (resp, d')" and "code resp = 201"
  shows "\<exists>ivc. invoice_findUnique d' newId = Some ivc
           \<and> i_subtotal ivc = subtotal data
           \<and> i_taxAmount ivc = taxAmount data
           \<and> i_discountAmount ivc = (case discountAmount data of None \<Rightarrow> 0 | Some v \<Rightarrow> v)
           \<and> i_totalAmount ivc = totalAmount data
           \<and> map ii_total (i_items ivc) = map item_total (items data)
           \<and> (lines_total ivc = i_totalAmount ivc \<longleftrightarrow>
                sum_list (map item_total (items data)) + taxAmount data
                  - (case discountAmount data of None \<Rightarrow> 0 | Some v \<Rightarrow> v) = totalAmount data)"
proof -
  from POST_invoices_cases [OF assms(1)] assms(2) obtain s where
    tx: "create_invoice_tx s num newId data d = (None, d')" by auto
  note eff = create_invoice_tx_ok [OF tx]
  have found: "invoice_findUnique d' newId = Some (new_invoice s num newId data)"
    unfolding invoice_findUnique_def eff(1)
    using find_new_row [of newId i_id "invoices d" "new_invoice s num newId data"] eff(3)
    by (simp add: new_invoice_def)
  have tot: "map ii_total (i_items (new_invoice s num newId data)) = map item_total (items data)"
    by (simp add: new_invoice_def item_row_def)
  have disc: "num_or_zero (discountAmount data)
              = (case discountAmount data of None \<Rightarrow> 0 | Some v \<Rightarrow> v)"
    by (simp add: num_or_zero_def split: option.splits)
  show ?thesis
    unfolding found lines_total_def
    by (simp add: new_invoice_def disc item_row_def comp_def)
qed

text \<open>
  The theorem at the request of the counterexample: the stored total is the submitted 5.
\<close>

theorem invoice_totals_client_witness:
  "map_option i_totalAmount
     (invoice_findUnique (snd (POST_invoices (staff ''CASHIER'') ''INV-20240101-1000'' ''i1''
                (order None 5 [line ''p1'' 1 100]) shop)) ''i1'') = Some 5"
proof -
  have ok: "code (fst (POST_invoices (staff ''CASHIER'') ''INV-20240101-1000'' ''i1''
                (order None 5 [line ''p1'' 1 100]) shop)) = 201"
    by (simp add: handler_defs)
  show ?thesis
    using invoice_totals_client [OF surjective_pairing ok]
    by (auto simp: order_def)
qed

section \<open>C4: voiding an invoice\<close>

text \<open>
  C4. A void succeeds only for an invoice that exists, is not VOIDED and has no return
  order, and for an admin it does succeed then (the rows the invoice refers to being in
  the store). A successful void adds to every product's stock the quantities of the
  invoice's lines for it and sets the status to VOIDED; a second void by an admin is
  answered 400, already voided, and changes nothing; a void of an invoice with returns
  is answered 400 and changes nothing (the message is the one about returns unless the
  invoice is also VOIDED, which is checked first). Voiding an invoice right after its
  creation brings every product's stock back to its value before the invoice.
\<close>

theorem void_invoice_contract:
  assumes "DELETE_invoice sess iid d = (resp, d')"
  shows "(code resp = 200 \<longrightarrow>
           (\<exists>ex. invoice_findUnique d iid = Some ex \<and> i_status ex \<noteq> ''VOIDED''
              \<and> returnOrder_findFirst d iid = None
              \<and> (\<forall>pid. products d' pid =
                    map_option (\<lambda>p. p\<lparr>stock := stock p + invoiced pid ex\<rparr>) (products d pid))
              \<and> map_option i_status (invoice_findUnique d' iid) = Some ''VOIDED''))
       \<and> (\<forall>s ex. sess = Some s \<and> isAdmin (s_role s) \<and> invoice_findUnique d iid = Some ex
              \<and> i_status ex \<noteq> ''VOIDED'' \<and> returnOrder_findFirst d iid = None
              \<and> (\<forall>item \<in> set (i_items ex). products d (ii_productId item) \<noteq> None)
              \<and> (\<forall>c. i_customerId ex = Some c \<longrightarrow> customers d c \<noteq> None)
              \<and> s_userId s \<in> users d \<longrightarrow> code resp = 200)
       \<and> (code resp = 200 \<longrightarrow>
           (\<forall>s. isAdmin (s_role s) \<longrightarrow>
              DELETE_invoice (Some s) iid d' = (json_error ''Invoice is already voided'' 400, d')))
       \<and> (\<forall>s ex. sess = Some s \<and> isAdmin (s_role s) \<and> invoice_findUnique d iid = Some ex
              \<and> returnOrder_findFirst d iid \<noteq> None \<longrightarrow>
            d' = d \<and> resp = json_error (if i_status ex = ''VOIDED''
                                         then ''Invoice is already voided''
                                         else ''Cannot void invoice with returns'') 400)
       \<and> (\<forall>sess0 num data d0 r0.
              POST_invoices sess0 num iid data d0 = (r0, d) \<and> code r0 = 201 \<and> code resp = 200 \<longrightarrow>
              products d' = products d0)"
proof -
  have stock_status: "\<exists>ex. invoice_findUnique d iid = Some ex \<and> i_status ex \<noteq> ''VOIDED''
              \<and> returnOrder_findFirst d iid = None
              \<and> (\<forall>pid. products d' pid =
                    map_option (\<lambda>p. p\<lparr>stock := stock p + invoiced pid ex\<rparr>) (products d pid))
              \<and> map_option i_status (invoice_findUnique d' iid) = Some ''VOIDED''"
    if ok: "code resp = 200"
  proof -
    from ok DELETE_invoice_cases [OF assms] obtain s ex where
      ex: "invoice_findUnique d iid = Some ex" "i_status ex \<noteq> ''VOIDED''"
          "returnOrder_findFirst d iid = None" and
      tx: "void_invoice_tx s ex iid d = (None, d')" by auto
    note eff = void_invoice_tx_ok [OF tx]
    have "\<forall>pid. products d' pid =
        map_option (\<lambda>p. p\<lparr>stock := stock p + invoiced pid ex\<rparr>) (products d pid)"
      unfolding eff by (simp add: stock_after_def invoiced_void_lines)
    moreover have "map_option i_status (invoice_findUnique d' iid) = Some ''VOIDED''"
      using ex(1) unfolding eff invoice_findUnique_def by (simp add: find_set_status)
    ultimately show ?thesis using ex by blast
  qed
  have runs: "code resp = 200"
    if a: "sess = Some s \<and> isAdmin (s_role s) \<and> invoice_findUnique d iid = Some ex
              \<and> i_status ex \<noteq> ''VOIDED'' \<and> returnOrder_findFirst d iid = None
              \<and> (\<forall>item \<in> set (i_items ex). products d (ii_productId item) \<noteq> None)
              \<and> (\<forall>c. i_customerId ex = Some c \<longrightarrow> customers d c \<noteq> None)
              \<and> s_userId s \<in> users d" for s ex
  proof -
    from a obtain d2 where "void_invoice_tx s ex iid d = (None, d2)"
      using void_invoice_tx_runs [of d iid ex s] by blast
    with a assms show ?thesis
      by (auto simp: DELETE_invoice_def transaction_def json_ok_def)
  qed
  have again: "DELETE_invoice (Some s) iid d' = (json_error ''Invoice is already voided'' 400, d')"
    if ok: "code resp = 200" and adm: "isAdmin (s_role s)" for s
  proof -
    from stock_status [OF ok] obtain v where
      "invoice_findUnique d' iid = Some v" "i_status v = ''VOIDED''"
      by (cases "invoice_findUnique d' iid") auto
    with adm show ?thesis by (simp add: DELETE_invoice_def)
  qed
  have returns: "d' = d \<and> resp = json_error (if i_status ex = ''VOIDED''
                                         then ''Invoice is already voided''
                                         else ''Cannot void invoice with returns'') 400"
    if a: "sess = Some s \<and> isAdmin (s_role s) \<and> invoice_findUnique d iid = Some ex
              \<and> returnOrder_findFirst d iid \<noteq> None" for s ex
    using a assms by (auto simp: DELETE_invoice_def split: if_splits)
  have restored: "products d' = products d0"
    if a: "POST_invoices sess0 num iid data d0 = (r0, d) \<and> code r0 = 201 \<and> code resp = 200"
    for sess0 num data d0 r0
  proof -
    from a POST_invoices_cases [of sess0 num iid data d0 r0 d] obtain s0 where
      tx0: "create_invoice_tx s0 num iid data d0 = (None, d)" by auto
    note eff0 = create_invoice_tx_ok [OF tx0]
    have found: "invoice_findUnique d iid = Some (new_invoice s0 num iid data)"
      unfolding invoice_findUnique_def eff0(1)
      using find_new_row [of iid i_id "invoices d0" "new_invoice s0 num iid data"] eff0(3)
      by (simp add: new_invoice_def)
    from a stock_status obtain ex where
      ex: "invoice_findUnique d iid = Some ex" and
      st: "\<forall>pid. products d' pid =
             map_option (\<lambda>p. p\<lparr>stock := stock p + invoiced pid ex\<rparr>) (products d pid)"
      by blast
    from ex found have "ex = new_invoice s0 num iid data" by simp
    then have "products d' pid = products d0 pid" for pid
      using st unfolding eff0(1)
      by (cases "products d0 pid")
         (simp_all add: stock_after_def sold_sale_lines invoiced_new_invoice)
    then show ?thesis by (rule ext)
  qed
  from stock_status runs again returns restored show ?thesis by blast
qed

text \<open>
  The theorem at work: voiding the five-unit invoice of \<open>sold_shop\<close> takes the stock
  from 0 to 5, a second void is refused, an invoice with a return is refused, and the
  small sale voided has the stock of the shop before the sale.
\<close>

theorem void_invoice_contract_witness:
  "code (fst (DELETE_invoice (staff ''ADMIN'') ''i1'' sold_shop)) = 200
   \<and> products (snd (DELETE_invoice (staff ''ADMIN'') ''i1'' sold_shop)) ''p1'' = Some \<lparr>stock = 5\<rparr>
   \<and> DELETE_invoice (staff ''ADMIN'') ''i1'' (snd (DELETE_invoice (staff ''ADMIN'') ''i1'' sold_shop))
       = (json_error ''Invoice is already voided'' 400,
          snd (DELETE_invoice (staff ''ADMIN'') ''i1'' sold_shop))
   \<and> DELETE_invoice (staff ''ADMIN'') ''i1'' returned_shop
       = (json_error ''Cannot void invoice with returns'' 400, returned_shop)
   \<and> products (snd small_sale_voided) = products shop"
proof -
  note thm1 = void_invoice_contract [where sess = "staff ''ADMIN''" and iid = "''i1''"
      and d = sold_shop, OF surjective_pairing]
  note thm2 = void_invoice_contract [where sess = "staff ''ADMIN''" and iid = "''i1''"
      and d = returned_shop, OF surjective_pairing]
  note thm3 = void_invoice_contract [where sess = "staff ''ADMIN''" and iid = "''i1''"
      and d = "snd small_sale", OF surjective_pairing]
  have found: "invoice_findUnique sold_shop ''i1'' = Some (hd (invoices sold_shop))"
    "invoice_findUnique returned_shop ''i1'' = Some (hd (invoices sold_shop))"
    by (simp_all add: invoice_findUnique_def sold_shop_def returned_shop_def)
  have ok: "code (fst (DELETE_invoice (staff ''ADMIN'') ''i1'' sold_shop)) = 200"
    using thm1 found(1)
    by (simp add: staff_def isAdmin_def returnOrder_findFirst_def sold_shop_def)
  have stock: "products (snd (DELETE_invoice (staff ''ADMIN'') ''i1'' sold_shop)) ''p1''
               = Some \<lparr>stock = 5\<rparr>"
    using thm1 ok found(1) by (auto simp: invoiced_def sold_shop_def)
  have again: "DELETE_invoice (staff ''ADMIN'') ''i1''
                 (snd (DELETE_invoice (staff ''ADMIN'') ''i1'' sold_shop))
       = (json_error ''Invoice is already voided'' 400,
          snd (DELETE_invoice (staff ''ADMIN'') ''i1'' sold_shop))"
    using thm1 ok by (simp add: staff_def isAdmin_def)
  have ret: "DELETE_invoice (staff ''ADMIN'') ''i1'' returned_shop
       = (json_error ''Cannot void invoice with returns'' 400, returned_shop)"
    using thm2 found(2)
    by (simp add: staff_def isAdmin_def returnOrder_findFirst_def returned_shop_def
        sold_shop_def prod_eq_iff)
  have vok: "code (fst (DELETE_invoice (staff ''ADMIN'') ''i1'' (snd small_sale))) = 200"
    unfolding small_sale_eq by (simp add: handler_defs void_defs)
  have sale: "POST_invoices (staff ''CASHIER'') ''INV-20240101-1000'' ''i1''
                (order (Some ''c1'') 5 [line ''p1'' 1 5]) shop = (fst small_sale, snd small_sale)"
    by (simp add: small_sale_def)
  have sok: "code (fst small_sale) = 201"
    by (simp add: small_sale_eq json_ok_def)
  have restored: "products (snd small_sale_voided) = products shop"
    unfolding small_sale_voided_def
    using thm3 [THEN conjunct2, THEN conjunct2, THEN conjunct2, THEN conjunct2, rule_format,
        OF conjI [OF sale conjI [OF sok vok]]] .
  from ok stock again ret restored show ?thesis by simp
qed

section \<open>C5: loyalty points and purchases, accrued and reversed\<close>

text \<open>
  What the two paths do to the customer: creation always adds the total and its points;
  the void (and the return) subtracts them only when the points are positive. So the
  reversal is exact from a total of 10 on, and nothing is reversed below.
\<close>

lemma debited_credited:
  assumes "customerId data = Some c" and "c \<noteq> []" and "cs c = Some x"
    and "\<lfloor>totalAmount data / 10\<rfloor> > 0"
  shows "debited (Some c) (totalAmount data) (credited data cs) = cs"
  using assms by (auto simp: debited_def credited_def truthy_str_def)

lemma debited_below_ten: "\<lfloor>amount / 10\<rfloor> \<le> 0 \<Longrightarrow> debited cid amount cs = cs"
  by (simp add: debited_def)

text \<open>
  C5, the code at the failing input. A customer with no points and no purchases buys
  for a total of 5: creation adds 5 to \<open>totalPurchases\<close> and 0 points. The void of
  that invoice succeeds and leaves \<open>totalPurchases\<close> at 5: the decrement sits under
  the test \<open>pointsEarned > 0\<close>, so it is skipped for every total below 10.
\<close>

theorem void_keeps_small_purchase:
  "customers shop ''c1'' = Some \<lparr>loyaltyPoints = 0, totalPurchases = 0\<rparr>
   \<and> code (fst small_sale) = 201
   \<and> customers (snd small_sale) ''c1'' = Some \<lparr>loyaltyPoints = 0, totalPurchases = 5\<rparr>
   \<and> code (fst small_sale_voided) = 200
   \<and> map_option i_status (invoice_findUnique (snd small_sale_voided) ''i1'') = Some ''VOIDED''
   \<and> customers (snd small_sale_voided) ''c1'' = Some \<lparr>loyaltyPoints = 0, totalPurchases = 5\<rparr>"
  unfolding small_sale_voided_def small_sale_eq
  by (simp add: handler_defs void_defs)

section \<open>C6: validation of a return\<close>

text \<open>
  C6. For a manager's return request against an existing invoice: when some submitted
  line names a product that is on no line of the invoice, or asks for more than the
  quantity of the invoice's line for that product (the first line with that productId,
  which is the line the handler looks up), the answer is 400 with an error message and
  the store is unchanged, so nothing is persisted.
\<close>

theorem return_validation_rejects:
  assumes "sess = Some s" and "isManager (s_role s)"
    and "r_invoiceId data = Some iid" and "invoice_findUnique d iid = Some ivc"
    and "\<exists>item \<in> set (r_items data).
           r_productId item \<notin> ii_productId ` set (i_items ivc)
           \<or> (\<exists>l. find (\<lambda>i. ii_productId i = r_productId item) (i_items ivc) = Some l
                  \<and> ii_quantity l < r_quantity item)"
  shows "code (fst (POST_returns sess data d)) = 400
         \<and> error (fst (POST_returns sess data d)) \<noteq> None
         \<and> snd (POST_returns sess data d) = d"
proof -
  from assms(5) obtain item where item: "item \<in> set (r_items data)"
    and bad: "r_productId item \<notin> ii_productId ` set (i_items ivc)
           \<or> (\<exists>l. find (\<lambda>i. ii_productId i = r_productId item) (i_items ivc) = Some l
                  \<and> ii_quantity l < r_quantity item)" by blast
  from bad have "\<not> (\<exists>l. find (\<lambda>i. ii_productId i = r_productId item) (i_items ivc) = Some l
                              \<and> r_quantity item \<le> ii_quantity l)"
    by (auto simp: find_None_productId [symmetric])
  with item have "check_return_items ivc (r_items data) \<noteq> None"
    unfolding check_return_items_None_iff by blast
  then obtain r where r: "check_return_items ivc (r_items data) = Some r" by auto
  from check_return_items_Some [OF r] r assms(1-4) show ?thesis
    by (auto simp: POST_returns_def json_error_def truthy_str_def)
qed

text \<open>
  The theorem at work: six units returned of five bought, and a product that is not on
  the invoice.
\<close>

theorem return_validation_rejects_witness:
  "POST_returns (staff ''MANAGER'') (refund None 60 [(''p1'', 6)]) sold_shop
     = (json_error ''Cannot return more than purchased quantity for product p1'' 400, sold_shop)
   \<and> POST_returns (staff ''MANAGER'') (refund None 10 [(''p1'', 1), (''p2'', 1)]) sold_shop
     = (json_error ''Product ID p2 not found in the invoice'' 400, sold_shop)"
proof -
  have found: "invoice_findUnique sold_shop ''i1'' = Some (hd (invoices sold_shop))"
    by (simp add: invoice_findUnique_def sold_shop_def)
  have m: "isManager (s_role \<lparr>s_userId = ''u1'', s_role = ''MANAGER''\<rparr>)"
    by (simp add: isManager_def)
  have "snd (POST_returns (staff ''MANAGER'') (refund None 60 [(''p1'', 6)]) sold_shop) = sold_shop"
    using return_validation_rejects [OF staff_def m _ found, of "refund None 60 [(''p1'', 6)]"]
    by (simp add: refund_def sold_shop_def)
  moreover have "snd (POST_returns (staff ''MANAGER'') (refund None 10 [(''p1'', 1), (''p2'', 1)])
                   sold_shop) = sold_shop"
    using return_validation_rejects [OF staff_def m _ found,
        of "refund None 10 [(''p1'', 1), (''p2'', 1)]"]
    by (simp add: refund_def sold_shop_def)
  moreover have "fst (POST_returns (staff ''MANAGER'') (refund None 60 [(''p1'', 6)]) sold_shop)
     = json_error ''Cannot return more than purchased quantity for product p1'' 400"
    by (simp add: return_defs void_defs staff_def isManager_def truthy_str_def)
  moreover have "fst (POST_returns (staff ''MANAGER'') (refund None 10 [(''p1'', 1), (''p2'', 1)])
                   sold_shop) = json_error ''Product ID p2 not found in the invoice'' 400"
    by (simp add: return_defs void_defs staff_def isManager_def truthy_str_def)
  ultimately show ?thesis by (simp add: prod_eq_iff)
qed

section \<open>C7: when a return marks the invoice REFUNDED\<close>

text \<open>
  C7, counterexample. The claim says that a COMPLETED return covering every line of the
  invoice at the full invoiced quantity makes the invoice REFUNDED. The invoice of
  \<open>sold_shop\<close> has one line, five units of \<open>p1\<close>. A return of the five units in
  two lines (two and three units, as two reasons would give) is answered 201, is
  COMPLETED and puts all five units back in stock, and the invoice stays PAID: for each
  invoice line the handler looks at the first return line of that product only.
\<close>

theorem split_return_not_refunded:
  "code (fst split_return) = 201
   \<and> map_option (map ii_quantity \<circ> i_items) (invoice_findUnique sold_shop ''i1'') = Some [5]
   \<and> map ri_quantity (ro_items (last (returnOrders (snd split_return)))) = [2, 3]
   \<and> ro_status (last (returnOrders (snd split_return))) = ''COMPLETED''
   \<and> map_option stock (products (snd split_return) ''p1'') = Some 5
   \<and> map_option i_status (invoice_findUnique (snd split_return) ''i1'') = Some ''PAID''"
  by (simp add: split_return_def handler_defs return_defs void_defs)

text \<open>
  C7, as amended: for a return with at most one line per product. Such a COMPLETED
  return, once created, makes the invoice REFUNDED when every invoice line has a return
  line of its product with the invoiced quantity, and leaves the status (indeed every
  invoice) as it was when some invoice line has no return line of its product, or has
  one with a smaller quantity.
\<close>

theorem full_return_refunds:
  assumes "POST_returns sess data d = (resp, d')" and "code resp = 201"
    and "str_or (r_status data) ''COMPLETED'' = ''COMPLETED''"
    and "r_invoiceId data = Some iid" and "invoice_findUnique d iid = Some ivc"
    and "distinct (map r_productId (r_items data))"
  shows "((\<forall>l \<in> set (i_items ivc). \<exists>r \<in> set (r_items data).
             r_productId r = ii_productId l \<and> r_quantity r = ii_quantity l) \<longrightarrow>
          map_option i_status (invoice_findUnique d' iid) = Some ''REFUNDED'')
       \<and> ((\<exists>l \<in> set (i_items ivc).
             (\<forall>r \<in> set (r_items data). r_productId r \<noteq> ii_productId l)
             \<or> (\<exists>r \<in> set (r_items data).
                   r_productId r = ii_productId l \<and> r_quantity r < ii_quantity l)) \<longrightarrow>
          invoices d' = invoices d)"
proof -
  from POST_returns_cases [OF assms(1)] assms(2,4,5) obtain s where
    tx: "create_return_tx s ivc data d = (None, d')" by auto
  from create_return_tx_ok [OF tx] assms(3,4)
  have inv: "invoices d' = (if allItemsReturned ivc data
                            then set_status iid ''REFUNDED'' (invoices d) else invoices d)"
    by (simp add: return_effect_def)
  have full: "allItemsReturned ivc data"
    if "\<forall>l \<in> set (i_items ivc). \<exists>r \<in> set (r_items data).
             r_productId r = ii_productId l \<and> r_quantity r = ii_quantity l"
    unfolding allItemsReturned_def list_all_iff
  proof
    fix l assume "l \<in> set (i_items ivc)"
    with that obtain r where r: "r \<in> set (r_items data)" "r_productId r = ii_productId l"
      "r_quantity r = ii_quantity l" by blast
    from find_distinct_productId [OF assms(6) r(1)] r(2,3)
    show "case find (\<lambda>item. r_productId item = ii_productId l) (r_items data) of
            None \<Rightarrow> False | Some returnedItem \<Rightarrow> ii_quantity l \<le> r_quantity returnedItem"
      by simp
  qed
  have part: "\<not> allItemsReturned ivc data"
    if "\<exists>l \<in> set (i_items ivc).
             (\<forall>r \<in> set (r_items data). r_productId r \<noteq> ii_productId l)
             \<or> (\<exists>r \<in> set (r_items data).
                   r_productId r = ii_productId l \<and> r_quantity r < ii_quantity l)"
  proof -
    from that obtain l where l: "l \<in> set (i_items ivc)" and
      c: "(\<forall>r \<in> set (r_items data). r_productId r \<noteq> ii_productId l)
          \<or> (\<exists>r \<in> set (r_items data).
                r_productId r = ii_productId l \<and> r_quantity r < ii_quantity l)" by blast
    from c have "\<not> (case find (\<lambda>item. r_productId item = ii_productId l) (r_items data) of
            None \<Rightarrow> False | Some returnedItem \<Rightarrow> ii_quantity l \<le> r_quantity returnedItem)"
    proof
      assume "\<forall>r \<in> set (r_items data). r_productId r \<noteq> ii_productId l"
      then have "find (\<lambda>item. r_productId item = ii_productId l) (r_items data) = None"
        by (simp add: find_absent_productId)
      then show ?thesis by simp
    next
      assume "\<exists>r \<in> set (r_items data).
                r_productId r = ii_productId l \<and> r_quantity r < ii_quantity l"
      then obtain r where r: "r \<in> set (r_items data)" "r_productId r = ii_productId l"
        "r_quantity r < ii_quantity l" by blast
      from find_distinct_productId [OF assms(6) r(1)] r(2,3) show ?thesis by simp
    qed
    with l show ?thesis unfolding allItemsReturned_def list_all_iff by blast
  qed
  have st: "map_option i_status (invoice_findUnique d' iid) = Some ''REFUNDED''"
    if "allItemsReturned ivc data"
    using that assms(5) unfolding invoice_findUnique_def inv
    by (simp add: find_set_status)
  from full part st inv show ?thesis by auto
qed

text \<open>
  The theorem at work on the five-unit invoice: five units returned, REFUNDED; two
  units returned, the invoices are unchanged.
\<close>

theorem full_return_refunds_witness:
  "map_option i_status
     (invoice_findUnique (snd (POST_returns (staff ''MANAGER'') (refund None 50 [(''p1'', 5)])
                                 sold_shop)) ''i1'') = Some ''REFUNDED''
   \<and> invoices (snd (POST_returns (staff ''MANAGER'') (refund None 20 [(''p1'', 2)]) sold_shop))
      = invoices sold_shop"
proof -
  have found: "invoice_findUnique sold_shop ''i1'' = Some (hd (invoices sold_shop))"
    by (simp add: invoice_findUnique_def sold_shop_def)
  have ok1: "code (fst (POST_returns (staff ''MANAGER'') (refund None 50 [(''p1'', 5)])
                          sold_shop)) = 201"
    by (simp add: handler_defs return_defs void_defs)
  have ok2: "code (fst (POST_returns (staff ''MANAGER'') (refund None 20 [(''p1'', 2)])
                          sold_shop)) = 201"
    by (simp add: handler_defs return_defs void_defs)
  have a: "map_option i_status
     (invoice_findUnique (snd (POST_returns (staff ''MANAGER'') (refund None 50 [(''p1'', 5)])
                                 sold_shop)) ''i1'') = Some ''REFUNDED''"
    using full_return_refunds [OF surjective_pairing ok1 _ _ found]
    by (simp add: refund_def str_or_def sold_shop_def)
  have b: "invoices (snd (POST_returns (staff ''MANAGER'') (refund None 20 [(''p1'', 2)])
                            sold_shop)) = invoices sold_shop"
    using full_return_refunds [OF surjective_pairing ok2 _ _ found]
    by (simp add: refund_def str_or_def sold_shop_def)
  from a b show ?thesis by simp
qed

section \<open>C8: percentages of the sales reports\<close>

lemma mset_object_entries [simp]: "mset (object_entries obj) = mset obj"
  by (simp add: object_entries_def)

lemma map_fst_bump_step:
  "map fst (map (\<lambda>(k, v). if k = key then (k, upd v) else (k, v)) obj) = map fst obj"
  by (induction obj) auto

lemma map_fst_bump:
  "map fst (bump key init upd obj)
   = (if has_member obj key then map fst obj else map fst obj @ [key])"
  unfolding bump_def Let_def map_fst_bump_step by simp

lemma sum_bump_step:
  fixes amt :: "'v \<Rightarrow> rat"
  assumes "\<And>v. amt (upd v) = amt v + a"
  shows "sum_list (map (amt \<circ> snd)
           (filter (\<lambda>e. P (fst e)) (map (\<lambda>(k, v). if k = key then (k, upd v) else (k, v)) obj)))
         = sum_list (map (amt \<circ> snd) (filter (\<lambda>e. P (fst e)) obj))
           + (if P key then a * of_nat (length (filter (\<lambda>e. fst e = key) obj)) else 0)"
  by (induction obj) (auto simp: assms algebra_simps)

lemma length_filter_key:
  "distinct (map fst obj) \<Longrightarrow>
   length (filter (\<lambda>e. fst e = key) obj) = (if key \<in> fst ` set obj then 1 else 0)"
  by (induction obj) (auto simp: rev_image_eqI)

lemma sum_bump:
  fixes amt :: "'v \<Rightarrow> rat"
  assumes upd: "\<And>v. amt (upd v) = amt v + a" and init: "amt init = 0"
    and dist: "distinct (map fst obj)" and clean: "fst ` set obj \<inter> set prototype_keys = {}"
  shows "sum_list (map (amt \<circ> snd) (filter (\<lambda>e. P (fst e)) (bump key init upd obj)))
         = sum_list (map (amt \<circ> snd) (filter (\<lambda>e. P (fst e)) obj))
           + (if P key \<and> key \<notin> set prototype_keys then a else 0)"
proof (cases "has_member obj key")
  case True
  have own: "map_of obj key \<noteq> None \<longleftrightarrow> key \<in> fst ` set obj"
    by (simp add: map_of_eq_None_iff)
  show ?thesis
  proof (cases "key \<in> fst ` set obj")
    case True
    with clean have "key \<notin> set prototype_keys" by auto
    with True \<open>has_member obj key\<close> show ?thesis
      by (simp add: bump_def Let_def sum_bump_step [where amt = amt, OF upd]
          length_filter_key [OF dist])
  next
    case False
    with \<open>has_member obj key\<close> own have "key \<in> set prototype_keys"
      by (auto simp: has_member_def)
    with False \<open>has_member obj key\<close> show ?thesis
      by (simp add: bump_def Let_def sum_bump_step [where amt = amt, OF upd]
          length_filter_key [OF dist])
  qed
next
  case False
  then have notin: "key \<notin> fst ` set obj" and np: "key \<notin> set prototype_keys"
    by (auto simp: has_member_def map_of_eq_None_iff)
  let ?o2 = "obj @ [(key, init)]"
  have d2: "distinct (map fst ?o2)" using dist notin by auto
  have one: "length (filter (\<lambda>e. fst e = key) ?o2) = 1"
    using length_filter_key [OF d2, of key] by simp
  have b: "bump key init upd obj = map (\<lambda>(k, v). if k = key then (k, upd v) else (k, v)) ?o2"
    using False by (simp add: bump_def)
  have "sum_list (map (amt \<circ> snd) (filter (\<lambda>e. P (fst e)) (bump key init upd obj)))
        = sum_list (map (amt \<circ> snd) (filter (\<lambda>e. P (fst e)) ?o2))
          + (if P key then a * of_nat (length (filter (\<lambda>e. fst e = key) ?o2)) else 0)"
    unfolding b by (rule sum_bump_step [where amt = amt, OF upd])
  also have "\<dots> = sum_list (map (amt \<circ> snd) (filter (\<lambda>e. P (fst e)) obj))
          + (if P key then a else 0)"
    unfolding one by (simp add: init)
  finally show ?thesis using np by simp
qed

lemma bump_invariants:
  assumes "distinct (map fst obj)" and "fst ` set obj \<inter> set prototype_keys = {}"
  shows "distinct (map fst (bump key init upd obj))"
    and "fst ` set (bump key init upd obj) \<inter> set prototype_keys = {}"
    and "fst ` set (bump key init upd obj)
         = fst ` set obj \<union> (if key \<in> set prototype_keys then {} else {key})"
proof -
  have own: "map_of obj key = None \<longleftrightarrow> key \<notin> fst ` set obj"
    by (simp add: map_of_eq_None_iff)
  have keys: "set (map fst (bump key init upd obj))
              = fst ` set obj \<union> (if key \<in> set prototype_keys then {} else {key})"
    using assms(2) unfolding map_fst_bump has_member_def own by auto
  show "distinct (map fst (bump key init upd obj))"
    using assms(1) unfolding map_fst_bump has_member_def own by auto
  from keys show "fst ` set (bump key init upd obj)
         = fst ` set obj \<union> (if key \<in> set prototype_keys then {} else {key})" by simp
  with assms(2) show "fst ` set (bump key init upd obj) \<inter> set prototype_keys = {}"
    by auto
qed

lemma group_fold:
  fixes amt :: "'v \<Rightarrow> rat" and key :: "'r \<Rightarrow> string"
  assumes upd: "\<And>r v. amt (upd r v) = amt v + a r" and init: "\<And>r. amt (init r) = 0"
    and "distinct (map fst obj)" and "fst ` set obj \<inter> set prototype_keys = {}"
  shows "distinct (map fst (foldl (\<lambda>m r. bump (key r) (init r) (upd r) m) obj rows))
       \<and> fst ` set (foldl (\<lambda>m r. bump (key r) (init r) (upd r) m) obj rows)
             \<inter> set prototype_keys = {}
       \<and> fst ` set (foldl (\<lambda>m r. bump (key r) (init r) (upd r) m) obj rows)
           = fst ` set obj \<union> key ` {r \<in> set rows. counted (key r)}
       \<and> sum_list (map (amt \<circ> snd) (filter (\<lambda>e. P (fst e))
             (foldl (\<lambda>m r. bump (key r) (init r) (upd r) m) obj rows)))
           = sum_list (map (amt \<circ> snd) (filter (\<lambda>e. P (fst e)) obj))
             + sum_list (map a (filter (\<lambda>r. P (key r) \<and> counted (key r)) rows))"
  using assms(3,4)
proof (induction rows arbitrary: obj)
  case Nil
  then show ?case by simp
next
  case (Cons r rows)
  note inv = bump_invariants [OF Cons.prems, of "key r" "init r" "upd r"]
  note IH = Cons.IH [OF inv(1,2)]
  note s = sum_bump [where amt = amt and P = P and upd = "upd r" and a = "a r"
      and init = "init r" and key = "key r", OF upd init Cons.prems]
  show ?case
  proof (intro conjI)
    show "distinct (map fst (foldl (\<lambda>m r. bump (key r) (init r) (upd r) m) obj (r # rows)))"
      using IH [THEN conjunct1] by simp
    show "fst ` set (foldl (\<lambda>m r. bump (key r) (init r) (upd r) m) obj (r # rows))
            \<inter> set prototype_keys = {}"
      using IH [THEN conjunct2, THEN conjunct1] by simp
    show "fst ` set (foldl (\<lambda>m r. bump (key r) (init r) (upd r) m) obj (r # rows))
          = fst ` set obj \<union> key ` {x \<in> set (r # rows). counted (key x)}"
      using IH [THEN conjunct2, THEN conjunct2, THEN conjunct1] inv(3)
      by (auto simp: counted_def)
    show "sum_list (map (amt \<circ> snd) (filter (\<lambda>e. P (fst e))
             (foldl (\<lambda>m r. bump (key r) (init r) (upd r) m) obj (r # rows))))
           = sum_list (map (amt \<circ> snd) (filter (\<lambda>e. P (fst e)) obj))
             + sum_list (map a (filter (\<lambda>r. P (key r) \<and> counted (key r)) (r # rows)))"
      unfolding foldl_Cons IH [THEN conjunct2, THEN conjunct2, THEN conjunct2] s
      by (simp add: counted_def)
  qed
qed


lemma sum_list_filter_mset:
  fixes g :: "'a \<Rightarrow> rat"
  assumes "mset xs = mset ys"
  shows "sum_list (map g (filter Q xs)) = sum_list (map g (filter Q ys))"
proof -
  have "sum_list (map g (filter Q zs)) = sum_mset (image_mset g (filter_mset Q (mset zs)))" for zs
    by (simp flip: sum_mset_sum_list)
  then show ?thesis using assms by simp
qed

lemma sum_list_mset:
  fixes g :: "'a \<Rightarrow> rat"
  assumes "mset xs = mset ys"
  shows "sum_list (map g xs) = sum_list (map g ys)"
  using sum_list_filter_mset [OF assms, of g "\<lambda>_. True"] by simp

lemma sum_single_key:
  fixes amt :: "'v \<Rightarrow> rat"
  shows "distinct (map fst xs) \<Longrightarrow> e \<in> set xs \<Longrightarrow>
         sum_list (map (amt \<circ> snd) (filter (\<lambda>x. fst x = fst e) xs)) = amt (snd e)"
proof (induction xs)
  case Nil
  then show ?case by simp
next
  case (Cons x xs)
  show ?case
  proof (cases "x = e")
    case True
    with Cons.prems(1) have "filter (\<lambda>y. fst y = fst e) xs = []"
      by (auto simp: filter_empty_conv rev_image_eqI)
    with True show ?thesis by simp
  next
    case False
    with Cons.prems have "e \<in> set xs" and "fst x \<noteq> fst e"
      by (auto simp: rev_image_eqI)
    with Cons show ?thesis by simp
  qed
qed

lemma grouped_result:
  fixes amt :: "'v \<Rightarrow> rat" and key :: "'r \<Rightarrow> string"
  assumes upd: "\<And>r v. amt (upd r v) = amt v + a r" and init: "\<And>r. amt (init r) = 0"
    and dist: "distinct (map fst obj)" and clean: "fst ` set obj \<inter> set prototype_keys = {}"
    and res: "mset result = mset (foldl (\<lambda>m r. bump (key r) (init r) (upd r) m) obj rows)"
  shows "distinct (map fst result)"
    and "set (map fst result) = fst ` set obj \<union> key ` {r \<in> set rows. counted (key r)}"
    and "\<forall>e \<in> set result. amt (snd e)
           = sum_list (map (amt \<circ> snd) (filter (\<lambda>x. fst x = fst e) obj))
             + sum_list (map a (filter (\<lambda>r. key r = fst e) rows))"
    and "sum_list (map (amt \<circ> snd) result)
           = sum_list (map (amt \<circ> snd) obj)
             + sum_list (map a (filter (\<lambda>r. counted (key r)) rows))"
proof -
  let ?M = "foldl (\<lambda>m r. bump (key r) (init r) (upd r) m) obj rows"
  note f = group_fold [where amt = amt and key = key and a = a and upd = upd and init = init
      and obj = obj and rows = rows, OF upd init dist clean]
  have dM: "distinct (map fst ?M)" and cM: "fst ` set ?M \<inter> set prototype_keys = {}"
    and kM: "fst ` set ?M = fst ` set obj \<union> key ` {r \<in> set rows. counted (key r)}"
    using f [where P = "\<lambda>_. True"] by blast+
  have sM: "sum_list (map (amt \<circ> snd) (filter (\<lambda>e. P (fst e)) ?M))
           = sum_list (map (amt \<circ> snd) (filter (\<lambda>e. P (fst e)) obj))
             + sum_list (map a (filter (\<lambda>r. P (key r) \<and> counted (key r)) rows))" for P
    using f [where P = P] by blast
  have "mset (map fst result) = mset (map fst ?M)"
    using res by simp
  from mset_eq_imp_distinct_iff [OF this] dM show dr: "distinct (map fst result)"
    by simp
  have setr: "set result = set ?M" using res by (rule mset_eq_setD)
  then show "set (map fst result) = fst ` set obj \<union> key ` {r \<in> set rows. counted (key r)}"
    using kM by simp
  show "\<forall>e \<in> set result. amt (snd e)
           = sum_list (map (amt \<circ> snd) (filter (\<lambda>x. fst x = fst e) obj))
             + sum_list (map a (filter (\<lambda>r. key r = fst e) rows))"
  proof
    fix e assume e: "e \<in> set result"
    with setr cM have c: "counted (fst e)" by (auto simp: counted_def)
    then have same: "filter (\<lambda>r. key r = fst e \<and> counted (key r)) rows
                     = filter (\<lambda>r. key r = fst e) rows"
      by (auto intro: filter_cong)
    have "amt (snd e) = sum_list (map (amt \<circ> snd) (filter (\<lambda>x. fst x = fst e) result))"
      using sum_single_key [OF dr e, of amt] by simp
    also have "\<dots> = sum_list (map (amt \<circ> snd) (filter (\<lambda>x. fst x = fst e) ?M))"
      by (rule sum_list_filter_mset [OF res])
    also have "\<dots> = sum_list (map (amt \<circ> snd) (filter (\<lambda>x. fst x = fst e) obj))
             + sum_list (map a (filter (\<lambda>r. key r = fst e) rows))"
      using sM [of "\<lambda>k. k = fst e"] unfolding same by simp
    finally show "amt (snd e)
           = sum_list (map (amt \<circ> snd) (filter (\<lambda>x. fst x = fst e) obj))
             + sum_list (map a (filter (\<lambda>r. key r = fst e) rows))" .
  qed
  have "sum_list (map (amt \<circ> snd) result) = sum_list (map (amt \<circ> snd) ?M)"
    by (rule sum_list_mset [OF res])
  also have "\<dots> = sum_list (map (amt \<circ> snd) obj)
             + sum_list (map a (filter (\<lambda>r. counted (key r)) rows))"
    using sM [of "\<lambda>_. True"] by simp
  finally show "sum_list (map (amt \<circ> snd) result)
           = sum_list (map (amt \<circ> snd) obj)
             + sum_list (map a (filter (\<lambda>r. counted (key r)) rows))" .
qed

lemma category_result_grouped:
  "mset (category_result cs)
   = mset (foldl (\<lambda>m r. bump (category_key r) (str_or (cs_categoryName r) ''Uncategorized'', 0)
                          (\<lambda>(name, tot). (name, tot + cs_total r)) m)
             [(''uncategorized'', ''Uncategorized'', 0)] cs)"
proof -
  have "add_category_sale
        = (\<lambda>m r. bump (category_key r) (str_or (cs_categoryName r) ''Uncategorized'', 0)
                          (\<lambda>(name, tot). (name, tot + cs_total r)) m)"
    by (intro ext) (simp add: add_category_sale_def category_key_def Let_def)
  then show ?thesis by (simp add: category_result_def Let_def)
qed

lemma payment_result_grouped:
  "mset (payment_result ps)
   = mset (foldl (\<lambda>m r. bump (ps_paymentMethod r) (0, 0)
                          (\<lambda>(tot, cnt). (tot + ps_totalAmount r, cnt + 1)) m) [] ps)"
proof -
  have "add_payment_sale
        = (\<lambda>m r. bump (ps_paymentMethod r) (0, 0)
                          (\<lambda>(tot, cnt). (tot + ps_totalAmount r, cnt + 1)) m)"
    by (intro ext) (simp add: add_payment_sale_def)
  then show ?thesis by (simp add: payment_result_def Let_def)
qed

lemma foldl_plus_sum_list:
  "foldl (\<lambda>acc item. acc + f item) a xs = a + sum_list (map f xs)"
  for a :: rat
  by (induction xs arbitrary: a) (simp_all add: add.assoc)

lemma percentages_sum:
  fixes T :: rat
  assumes "T = sum_list (map f xs)" and "T \<noteq> 0"
  shows "sum_list (map (\<lambda>x. f x / T * 100) xs) = 100"
proof -
  have "sum_list (map (\<lambda>x. f x / c * 100) ys) = sum_list (map f ys) / c * 100" for c ys
    by (induction ys) (simp_all add: add_divide_distrib distrib_right)
  then show ?thesis using assms by simp
qed

lemma category_report_shape:
  "cat_totalSales (getSalesByCategory rows)
     = sum_list (map (\<lambda>x. snd (snd x)) (category_result rows))"
  "cat_data (getSalesByCategory rows) =
     map (\<lambda>(k, name, tot).
            \<lparr>cr_id = k, cr_name = name, cr_total = tot,
             cr_percentage = (if cat_totalSales (getSalesByCategory rows) > 0
                              then tot / cat_totalSales (getSalesByCategory rows) * 100
                              else 0)\<rparr>) (category_result rows)"
  unfolding getSalesByCategory_def Let_def foldl_plus_sum_list by (simp_all cong: if_cong)

lemma payment_report_shape:
  "pay_totalSales (getSalesByPaymentMethod rows)
     = sum_list (map (\<lambda>x. fst (snd x)) (payment_result rows))"
  "pay_data (getSalesByPaymentMethod rows) =
     map (\<lambda>(k, tot, cnt).
            \<lparr>pr_method = k, pr_total = tot, pr_count = cnt, pr_average = tot / of_nat cnt,
             pr_percentage = (if pay_totalSales (getSalesByPaymentMethod rows) > 0
                              then tot / pay_totalSales (getSalesByPaymentMethod rows) * 100
                              else 0)\<rparr>) (payment_result rows)"
  unfolding getSalesByPaymentMethod_def Let_def foldl_plus_sum_list by (simp_all cong: if_cong)

lemma category_report_groups:
  "distinct (map cr_id (cat_data (getSalesByCategory cs)))"
  "set (map cr_id (cat_data (getSalesByCategory cs)))
     = insert ''uncategorized'' (category_key ` {i \<in> set cs. counted (category_key i)})"
  "\<forall>g \<in> set (cat_data (getSalesByCategory cs)).
     cr_total g = sum_list (map cs_total (filter (\<lambda>i. category_key i = cr_id g) cs))"
  "cat_totalSales (getSalesByCategory cs)
     = sum_list (map cs_total (filter (\<lambda>i. counted (category_key i)) cs))"
proof -
  have u: "snd ((\<lambda>(name, tot). (name, tot + cs_total r)) v) = snd v + cs_total r"
    for r :: category_sale and v :: "string \<times> rat"
    by (simp add: case_prod_unfold)
  have c: "fst ` set [(''uncategorized'', ''Uncategorized'', 0 :: rat)] \<inter> set prototype_keys = {}"
    by (simp add: prototype_keys_def)
  note g = grouped_result [where amt = snd and a = cs_total and key = category_key
      and init = "\<lambda>r. (str_or (cs_categoryName r) ''Uncategorized'', 0)"
      and upd = "\<lambda>r (name, tot). (name, tot + cs_total r)"
      and obj = "[(''uncategorized'', ''Uncategorized'', 0)]" and rows = cs
      and result = "category_result cs", OF u _ _ c category_result_grouped]
  have ids: "map cr_id (cat_data (getSalesByCategory cs)) = map fst (category_result cs)"
    unfolding category_report_shape(2) by (simp add: comp_def case_prod_unfold)
  show "distinct (map cr_id (cat_data (getSalesByCategory cs)))"
    unfolding ids using g(1) by simp
  show "set (map cr_id (cat_data (getSalesByCategory cs)))
     = insert ''uncategorized'' (category_key ` {i \<in> set cs. counted (category_key i)})"
    unfolding ids using g(2) by simp
  have tot: "\<forall>e \<in> set (category_result cs).
      snd (snd e) = sum_list (map cs_total (filter (\<lambda>i. category_key i = fst e) cs))"
    using g(3) by simp
  show "\<forall>g \<in> set (cat_data (getSalesByCategory cs)).
     cr_total g = sum_list (map cs_total (filter (\<lambda>i. category_key i = cr_id g) cs))"
    unfolding category_report_shape(2) using tot by (auto simp: case_prod_unfold)
  show "cat_totalSales (getSalesByCategory cs)
     = sum_list (map cs_total (filter (\<lambda>i. counted (category_key i)) cs))"
    unfolding category_report_shape(1) using g(4) by (simp add: comp_def)
qed

lemma payment_report_groups:
  "distinct (map pr_method (pay_data (getSalesByPaymentMethod ps)))"
  "set (map pr_method (pay_data (getSalesByPaymentMethod ps)))
     = ps_paymentMethod ` {i \<in> set ps. counted (ps_paymentMethod i)}"
  "\<forall>g \<in> set (pay_data (getSalesByPaymentMethod ps)).
     pr_total g = sum_list (map ps_totalAmount (filter (\<lambda>i. ps_paymentMethod i = pr_method g) ps))"
  "pay_totalSales (getSalesByPaymentMethod ps)
     = sum_list (map ps_totalAmount (filter (\<lambda>i. counted (ps_paymentMethod i)) ps))"
proof -
  have u: "fst ((\<lambda>(tot, cnt). (tot + ps_totalAmount r, cnt + 1)) v) = fst v + ps_totalAmount r"
    for r :: payment_sale and v :: "rat \<times> nat"
    by (simp add: case_prod_unfold)
  note g = grouped_result [where amt = fst and a = ps_totalAmount and key = ps_paymentMethod
      and init = "\<lambda>r. (0, 0)"
      and upd = "\<lambda>r (tot, cnt). (tot + ps_totalAmount r, cnt + 1)"
      and obj = "[]" and rows = ps
      and result = "payment_result ps", OF u _ _ _ payment_result_grouped]
  have ids: "map pr_method (pay_data (getSalesByPaymentMethod ps)) = map fst (payment_result ps)"
    unfolding payment_report_shape(2) by (simp add: comp_def case_prod_unfold)
  show "distinct (map pr_method (pay_data (getSalesByPaymentMethod ps)))"
    unfolding ids using g(1) by simp
  show "set (map pr_method (pay_data (getSalesByPaymentMethod ps)))
     = ps_paymentMethod ` {i \<in> set ps. counted (ps_paymentMethod i)}"
    unfolding ids using g(2) by simp
  have tot: "\<forall>e \<in> set (payment_result ps).
      fst (snd e) = sum_list (map ps_totalAmount (filter (\<lambda>i. ps_paymentMethod i = fst e) ps))"
    using g(3) by simp
  show "\<forall>g \<in> set (pay_data (getSalesByPaymentMethod ps)).
     pr_total g = sum_list (map ps_totalAmount (filter (\<lambda>i. ps_paymentMethod i = pr_method g) ps))"
    unfolding payment_report_shape(2) using tot by (auto simp: case_prod_unfold)
  show "pay_totalSales (getSalesByPaymentMethod ps)
     = sum_list (map ps_totalAmount (filter (\<lambda>i. counted (ps_paymentMethod i)) ps))"
    unfolding payment_report_shape(1) using g(4) by (simp add: comp_def)
qed

lemmas report_defs =
  getSalesByCategory_def category_result_def add_category_sale_def
  getSalesByPaymentMethod_def payment_result_def add_payment_sale_def
  bump_def has_member_def prototype_keys_def object_entries_def array_index_def digit_of_def
  week_sales_def free_sales_def till_sales_def odd_sales_def str_or_def Let_def

text \<open>
  A payment method named like a member of \<open>Object.prototype\<close> gets no group, so its
  amount is in no total; methods that are array indices come first, in ascending order,
  before the stable sort by total.
\<close>

lemma odd_sales_report:
  "map pr_method (pay_data (getSalesByPaymentMethod odd_sales)) = [''CASH'', ''1'', ''2'']"
  "map pr_total (pay_data (getSalesByPaymentMethod odd_sales)) = [10, 5, 5]"
  "pay_totalSales (getSalesByPaymentMethod odd_sales) = 20"
  "sum_list (map ps_totalAmount odd_sales) = 70"
  by (simp_all add: report_defs)

text \<open>
  C8. Both reports group the fetched rows: the groups have distinct ids, which are the
  keys of the rows (for categories also \<open>uncategorized\<close>), a row whose key names a
  member of \<open>Object.prototype\<close> excepted; a group's total is the sum of the amounts
  of the rows with its key; the overall total is the sum of the amounts of the rows that
  are counted, and the sum of the groups' totals. Each group's percentage is its total
  divided by the overall total, times 100, when the overall total is positive, and 0
  otherwise. So the percentages add up to 100 when the overall total is positive
  (exactly, numbers being rationals here), and every percentage is 0 when the overall
  total is 0: no division by zero is performed.
\<close>

theorem report_percentages:
  "distinct (map cr_id (cat_data (getSalesByCategory cs)))
   \<and> set (map cr_id (cat_data (getSalesByCategory cs)))
       = insert ''uncategorized'' (category_key ` {i \<in> set cs. counted (category_key i)})
   \<and> (\<forall>g \<in> set (cat_data (getSalesByCategory cs)).
         cr_total g = sum_list (map cs_total (filter (\<lambda>i. category_key i = cr_id g) cs)))
   \<and> cat_totalSales (getSalesByCategory cs)
       = sum_list (map cs_total (filter (\<lambda>i. counted (category_key i)) cs))
   \<and> cat_totalSales (getSalesByCategory cs) = sum_list (map cr_total (cat_data (getSalesByCategory cs)))
   \<and> (\<forall>g \<in> set (cat_data (getSalesByCategory cs)).
         cr_percentage g = (if cat_totalSales (getSalesByCategory cs) > 0
                            then cr_total g / cat_totalSales (getSalesByCategory cs) * 100 else 0))
   \<and> (cat_totalSales (getSalesByCategory cs) > 0 \<longrightarrow>
         sum_list (map cr_percentage (cat_data (getSalesByCategory cs))) = 100)
   \<and> (cat_totalSales (getSalesByCategory cs) = 0 \<longrightarrow>
         (\<forall>g \<in> set (cat_data (getSalesByCategory cs)). cr_percentage g = 0))
   \<and> distinct (map pr_method (pay_data (getSalesByPaymentMethod ps)))
   \<and> set (map pr_method (pay_data (getSalesByPaymentMethod ps)))
       = ps_paymentMethod ` {i \<in> set ps. counted (ps_paymentMethod i)}
   \<and> (\<forall>g \<in> set (pay_data (getSalesByPaymentMethod ps)).
         pr_total g
           = sum_list (map ps_totalAmount (filter (\<lambda>i. ps_paymentMethod i = pr_method g) ps)))
   \<and> pay_totalSales (getSalesByPaymentMethod ps)
       = sum_list (map ps_totalAmount (filter (\<lambda>i. counted (ps_paymentMethod i)) ps))
   \<and> pay_totalSales (getSalesByPaymentMethod ps)
       = sum_list (map pr_total (pay_data (getSalesByPaymentMethod ps)))
   \<and> (\<forall>g \<in> set (pay_data (getSalesByPaymentMethod ps)).
         pr_percentage g = (if pay_totalSales (getSalesByPaymentMethod ps) > 0
                            then pr_total g / pay_totalSales (getSalesByPaymentMethod ps) * 100
                            else 0))
   \<and> (pay_totalSales (getSalesByPaymentMethod ps) > 0 \<longrightarrow>
         sum_list (map pr_percentage (pay_data (getSalesByPaymentMethod ps))) = 100)
   \<and> (pay_totalSales (getSalesByPaymentMethod ps) = 0 \<longrightarrow>
         (\<forall>g \<in> set (pay_data (getSalesByPaymentMethod ps)). pr_percentage g = 0))"
proof -
  note rc = category_report_shape [of cs]
  note rp = payment_report_shape [of ps]
  note gc = category_report_groups [of cs]
  note gp = payment_report_groups [of ps]
  let ?T = "cat_totalSales (getSalesByCategory cs)"
  let ?U = "pay_totalSales (getSalesByPaymentMethod ps)"
  have c1: "?T = sum_list (map cr_total (cat_data (getSalesByCategory cs)))"
    unfolding rc(2) by (simp add: rc(1) comp_def case_prod_unfold)
  have c2: "\<forall>g \<in> set (cat_data (getSalesByCategory cs)).
         cr_percentage g = (if ?T > 0 then cr_total g / ?T * 100 else 0)"
    unfolding rc(2) by auto
  have c3: "sum_list (map cr_percentage (cat_data (getSalesByCategory cs))) = 100" if "?T > 0"
  proof -
    have "sum_list (map cr_percentage (cat_data (getSalesByCategory cs)))
          = sum_list (map (\<lambda>x. snd (snd x) / ?T * 100) (category_result cs))"
      unfolding rc(2) using that by (simp add: comp_def case_prod_unfold)
    also have "\<dots> = 100" using percentages_sum [OF rc(1)] that by simp
    finally show ?thesis .
  qed
  have c4: "\<forall>g \<in> set (cat_data (getSalesByCategory cs)). cr_percentage g = 0" if "?T = 0"
    using c2 that by simp
  have p1: "?U = sum_list (map pr_total (pay_data (getSalesByPaymentMethod ps)))"
    unfolding rp(2) by (simp add: rp(1) comp_def case_prod_unfold)
  have p2: "\<forall>g \<in> set (pay_data (getSalesByPaymentMethod ps)).
         pr_percentage g = (if ?U > 0 then pr_total g / ?U * 100 else 0)"
    unfolding rp(2) by auto
  have p3: "sum_list (map pr_percentage (pay_data (getSalesByPaymentMethod ps))) = 100" if "?U > 0"
  proof -
    have "sum_list (map pr_percentage (pay_data (getSalesByPaymentMethod ps)))
          = sum_list (map (\<lambda>x. fst (snd x) / ?U * 100) (payment_result ps))"
      unfolding rp(2) using that by (simp add: comp_def case_prod_unfold)
    also have "\<dots> = 100" using percentages_sum [OF rp(1)] that by simp
    finally show ?thesis .
  qed
  have p4: "\<forall>g \<in> set (pay_data (getSalesByPaymentMethod ps)). pr_percentage g = 0" if "?U = 0"
    using p2 that by simp
  have c34: "(?T > 0 \<longrightarrow> sum_list (map cr_percentage (cat_data (getSalesByCategory cs))) = 100)
     \<and> (?T = 0 \<longrightarrow> (\<forall>g \<in> set (cat_data (getSalesByCategory cs)). cr_percentage g = 0))"
    using c3 c4 by blast
  have p34: "(?U > 0 \<longrightarrow> sum_list (map pr_percentage (pay_data (getSalesByPaymentMethod ps))) = 100)
     \<and> (?U = 0 \<longrightarrow> (\<forall>g \<in> set (pay_data (getSalesByPaymentMethod ps)). pr_percentage g = 0))"
    using p3 p4 by blast
  show ?thesis
    by (intro conjI gc(1) gc(2) gc(3) gc(4) c1 c2 c34 [THEN conjunct1] c34 [THEN conjunct2]
          gp(1) gp(2) gp(3) gp(4) p1 p2 p34 [THEN conjunct1] p34 [THEN conjunct2])
qed

text \<open>
  The theorem at work: three sales in two categories, 40 in all; three sales by two
  payment methods, 100 in all, 75 of it in cash; in both the percentages add up to 100.
  Two payment methods with nothing sold are both at 0.
\<close>

theorem report_percentages_witness:
  "map cr_id (cat_data (getSalesByCategory week_sales)) = [''cat1'', ''uncategorized'']
   \<and> map cr_total (cat_data (getSalesByCategory week_sales)) = [30, 10]
   \<and> cat_totalSales (getSalesByCategory week_sales) = 40
   \<and> sum_list (map cr_percentage (cat_data (getSalesByCategory week_sales))) = 100
   \<and> map pr_method (pay_data (getSalesByPaymentMethod till_sales)) = [''CASH'', ''CARD'']
   \<and> map pr_total (pay_data (getSalesByPaymentMethod till_sales)) = [75, 25]
   \<and> pay_totalSales (getSalesByPaymentMethod till_sales) = 100
   \<and> map pr_percentage (pay_data (getSalesByPaymentMethod till_sales)) = [75, 25]
   \<and> sum_list (map pr_percentage (pay_data (getSalesByPaymentMethod till_sales))) = 100
   \<and> pay_totalSales (getSalesByPaymentMethod free_sales) = 0
   \<and> map pr_percentage (pay_data (getSalesByPaymentMethod free_sales)) = [0, 0]"
proof -
  have t: "cat_totalSales (getSalesByCategory week_sales) = 40"
    by (simp add: report_defs)
  have ids: "map cr_id (cat_data (getSalesByCategory week_sales)) = [''cat1'', ''uncategorized'']"
    by (simp add: report_defs)
  have tots: "map cr_total (cat_data (getSalesByCategory week_sales)) = [30, 10]"
    by (simp add: report_defs)
  have v: "pay_totalSales (getSalesByPaymentMethod till_sales) = 100"
    by (simp add: report_defs)
  have methods: "map pr_method (pay_data (getSalesByPaymentMethod till_sales)) = [''CASH'', ''CARD'']"
    by (simp add: report_defs)
  have ptots: "map pr_total (pay_data (getSalesByPaymentMethod till_sales)) = [75, 25]"
    by (simp add: report_defs)
  have pcts: "map pr_percentage (pay_data (getSalesByPaymentMethod till_sales)) = [75, 25]"
    by (simp add: report_defs)
  have u: "pay_totalSales (getSalesByPaymentMethod free_sales) = 0"
    by (simp add: report_defs)
  have len: "length (pay_data (getSalesByPaymentMethod free_sales)) = 2"
    by (simp add: report_defs)
  have zero: "\<forall>g \<in> set (pay_data (getSalesByPaymentMethod free_sales)). pr_percentage g = 0"
    using report_percentages [of week_sales free_sales] u by simp
  have sum: "sum_list (map cr_percentage (cat_data (getSalesByCategory week_sales))) = 100"
    using report_percentages [of week_sales free_sales] t by simp
  have psum: "sum_list (map pr_percentage (pay_data (getSalesByPaymentMethod till_sales))) = 100"
    using report_percentages [of week_sales till_sales] v by simp
  from len zero have "map pr_percentage (pay_data (getSalesByPaymentMethod free_sales)) = [0, 0]"
    by (cases "pay_data (getSalesByPaymentMethod free_sales)" rule: list.exhaust;
        force simp: length_Suc_conv)
  with t ids tots v methods ptots pcts u sum psum show ?thesis by simp
qed

section \<open>C9: two sales of the last unit\<close>

text \<open>
  C9, counterexample. The claim says that of two requests for one unit of a product with
  one unit in stock exactly one succeeds and the other fails for insufficient stock.
  Interleavings are not modelled; served one after the other, which is one of the ways
  two concurrent requests can be served (and the only one when the store serialises its
  write transactions), both requests are answered 201 with no error and the stock ends
  at -1.
\<close>

theorem serial_sales_both_succeed:
  "map_option stock (products shop ''p1'') = Some 1
   \<and> code (fst first_sale) = 201 \<and> error (fst first_sale) = None
   \<and> code (fst second_sale) = 201 \<and> error (fst second_sale) = None
   \<and> map_option stock (products (snd second_sale) ''p1'') = Some (- 1)"
  by (simp add: second_sale_def first_sale_def handler_defs)

text \<open>
  C9, as amended: for two requests served one after the other. When the first request
  for one unit of the product has succeeded on a stock of one, a second request for one
  unit by a cashier the store knows, with a fresh invoice id and number and a customer
  (if any) the store knows, succeeds as well, and the stock is then -1: no request
  fails for lack of stock.
\<close>

theorem serial_sales_of_last_unit:
  assumes first: "POST_invoices sess1 num1 id1 data1 d = (r1, d1)" "code r1 = 201"
    and second: "POST_invoices (Some s2) num2 id2 data2 d1 = (r2, d2)"
    and staff2: "isCashier (s_role s2)" "s_userId s2 \<in> users d"
    and fresh: "id2 \<noteq> id1" "id2 \<notin> i_id ` set (invoices d)"
      "num2 \<noteq> num1" "num2 \<notin> i_invoiceNumber ` set (invoices d)"
    and cust: "\<forall>c. str_or_null (customerId data2) = Some c \<longrightarrow> customers d c \<noteq> None"
    and lines: "items data1 = [l1]" "productId l1 = p" "quantity l1 = 1"
      "items data2 = [l2]" "productId l2 = p" "quantity l2 = 1"
    and stock: "products d p = Some pr" "stock pr = 1"
  shows "code r2 = 201 \<and> map_option stock (products d2 p) = Some (- 1)"
proof -
  from POST_invoices_cases [OF first(1)] first(2) obtain s1 where
    tx1: "create_invoice_tx s1 num1 id1 data1 d = (None, d1)" by auto
  note e1 = create_invoice_tx_ok(1) [OF tx1]
  have p1: "products d1 p = Some (pr\<lparr>stock := 0\<rparr>)"
    unfolding e1 using lines(1-3) stock
    by (simp add: stock_after_def sale_lines_def)
  have "invoice_create (new_invoice s2 num2 id2 data2) d1
        = (None, d1\<lparr>invoices := invoices d1 @ [new_invoice s2 num2 id2 data2]\<rparr>)"
    unfolding invoice_create_def
    using fresh staff2(2) cust lines(4,5) p1
    by (auto simp: e1 new_invoice_def item_row_def split: option.splits)
  from create_invoice_tx_runs [OF this] obtain d3 where
    tx2: "create_invoice_tx s2 num2 id2 data2 d1 = (None, d3)" by blast
  with second staff2(1) lines(4) have r2: "r2 = json_ok 201" and d2: "d2 = d3"
    by (auto simp: POST_invoices_def transaction_def)
  note e2 = create_invoice_tx_ok(1) [OF tx2]
  have "map_option stock (products d2 p) = Some (- 1)"
    unfolding d2 e2 using lines(4-6) p1
    by (simp add: stock_after_def sale_lines_def)
  with r2 show ?thesis by (simp add: json_ok_def)
qed

text \<open>
  The theorem at work, the two requests of the counterexample in the other order.
\<close>

theorem serial_sales_of_last_unit_witness:
  "code (fst (POST_invoices (staff ''CASHIER'') ''INV-20240101-1000'' ''i1''
                (order (Some ''c1'') 20 [line ''p1'' 1 20])
                (snd (POST_invoices (staff ''CASHIER'') ''INV-20240101-2000'' ''i2''
                        (order None 20 [line ''p1'' 1 20]) shop)))) = 201
   \<and> map_option stock
        (products (snd (POST_invoices (staff ''CASHIER'') ''INV-20240101-1000'' ''i1''
                (order (Some ''c1'') 20 [line ''p1'' 1 20])
                (snd (POST_invoices (staff ''CASHIER'') ''INV-20240101-2000'' ''i2''
                        (order None 20 [line ''p1'' 1 20]) shop)))) ''p1'') = Some (- 1)"
proof -
  have ok1: "code (fst (POST_invoices (staff ''CASHIER'') ''INV-20240101-2000'' ''i2''
                        (order None 20 [line ''p1'' 1 20]) shop)) = 201"
    by (simp add: handler_defs)
  show ?thesis
    using serial_sales_of_last_unit [OF surjective_pairing ok1,
        where ?s2.0 = "\<lparr>s_userId = ''u1'', s_role = ''CASHIER''\<rparr>"
          and ?num2.0 = "''INV-20240101-1000''" and ?id2.0 = "''i1''"
          and ?data2.0 = "order (Some ''c1'') 20 [line ''p1'' 1 20]"
          and ?l1.0 = "line ''p1'' 1 20" and ?l2.0 = "line ''p1'' 1 20" and p = "''p1''"
          and pr = "\<lparr>stock = 1\<rparr>", OF surjective_pairing]
    by (simp add: staff_def isCashier_def shop_def order_def line_def str_or_null_def
        truthy_str_def)
qed

section \<open>C10: a return that is not COMPLETED\<close>

text \<open>
  C10. A return request whose status is given and is not COMPLETED leaves the products,
  the stock history, the invoices (so every status), the customers and the loyalty
  history unchanged; when it succeeds it appends the return order with its items and one
  activity log entry, and when it fails it writes nothing.
\<close>

theorem pending_return_frame:
  assumes "POST_returns sess data d = (resp, d')"
    and "str_or (r_status data) ''COMPLETED'' \<noteq> ''COMPLETED''"
  shows "products d' = products d \<and> stockHistory d' = stockHistory d
         \<and> invoices d' = invoices d \<and> customers d' = customers d
         \<and> loyaltyHistory d' = loyaltyHistory d \<and> users d' = users d
         \<and> (code resp = 201 \<longrightarrow>
              returnOrders d' = returnOrders d @ [new_return data]
              \<and> (\<exists>s. sess = Some s \<and> activityLog d' = activityLog d
                     @ [\<lparr>al_userId = s_userId s, al_action = ''CREATE_RETURN''\<rparr>]))
         \<and> (code resp \<noteq> 201 \<longrightarrow> d' = d)"
proof (cases "code resp = 201")
  case True
  with POST_returns_cases [OF assms(1)] obtain s ivc where
    s: "sess = Some s" and tx: "create_return_tx s ivc data d = (None, d')" by auto
  from create_return_tx_ok [OF tx] assms(2) s True show ?thesis
    by (simp add: return_effect_def)
next
  case False
  with POST_returns_cases [OF assms(1)] have "d' = d" by auto
  with False show ?thesis by simp
qed

text \<open>
  The theorem at work: a PENDING return of the five units of \<open>sold_shop\<close>.
\<close>

theorem pending_return_frame_witness:
  "code (fst (POST_returns (staff ''MANAGER'') (refund (Some ''PENDING'') 50 [(''p1'', 5)])
             sold_shop)) = 201
   \<and> products (snd (POST_returns (staff ''MANAGER'') (refund (Some ''PENDING'') 50 [(''p1'', 5)])
             sold_shop)) = products sold_shop
   \<and> invoices (snd (POST_returns (staff ''MANAGER'') (refund (Some ''PENDING'') 50 [(''p1'', 5)])
             sold_shop)) = invoices sold_shop
   \<and> customers (snd (POST_returns (staff ''MANAGER'') (refund (Some ''PENDING'') 50 [(''p1'', 5)])
             sold_shop)) = customers sold_shop
   \<and> length (returnOrders (snd (POST_returns (staff ''MANAGER'')
             (refund (Some ''PENDING'') 50 [(''p1'', 5)]) sold_shop))) = 1
   \<and> activityLog (snd (POST_returns (staff ''MANAGER'')
             (refund (Some ''PENDING'') 50 [(''p1'', 5)]) sold_shop))
      = [\<lparr>al_userId = ''u1'', al_action = ''CREATE_RETURN''\<rparr>]"
proof -
  have ok: "code (fst (POST_returns (staff ''MANAGER'') (refund (Some ''PENDING'') 50 [(''p1'', 5)])
             sold_shop)) = 201"
    by (simp add: handler_defs return_defs void_defs)
  have st: "str_or (r_status (refund (Some ''PENDING'') 50 [(''p1'', 5)])) ''COMPLETED''
            \<noteq> ''COMPLETED''"
    by (simp add: refund_def str_or_def)
  show ?thesis
    using pending_return_frame [OF surjective_pairing st, of "staff ''MANAGER''" sold_shop] ok
    by (simp add: staff_def sold_shop_def)
qed

end
